theory Spec2Isabelle
  imports Main
begin

unbundle bit_operations_syntax

section \<open>Python values and errors\<close>

text \<open>
  Byte strings are lists of 8-bit characters. The locale encoding
  (\<^verbatim>\<open>SYSTEM_ENCODING\<close>) is taken to be a single-byte encoding in which every
  byte decodes (Latin-1), so \<^verbatim>\<open>encode\<close> and \<^verbatim>\<open>decode\<close> are the identity
  and a text string is the list of its bytes.
\<close>

type_synonym bytes = string

datatype py_error = ValueError | TypeError | IOError | OSError

abbreviation NUL :: char where
  "NUL \<equiv> CHR 0x00"

section \<open>The header structure\<close>

text \<open>
  \<^verbatim>\<open>class TarHeader(ctypes.Structure)\<close> with \<^verbatim>\<open>_pack_ = 1\<close>: a buffer of 512
  bytes, the fields laid out one after the other in the order of
  \<^verbatim>\<open>_fields_\<close>, with no padding between them.
\<close>

datatype field =
    F_name | F_mode | F_uid | F_gid | F_size | F_mtime | F_chksum | F_typeflag
  | F_linkname | F_magic | F_version | F_uname | F_gname | F_devmajor | F_devminor
  | F_prefix | F_pad

definition fields_order :: "field list" where
  "fields_order =
     [F_name, F_mode, F_uid, F_gid, F_size, F_mtime, F_chksum, F_typeflag,
      F_linkname, F_magic, F_version, F_uname, F_gname, F_devmajor, F_devminor,
      F_prefix, F_pad]"

fun width :: "field \<Rightarrow> nat" where
  "width F_name = 100"
| "width F_mode = 8"
| "width F_uid = 8"
| "width F_gid = 8"
| "width F_size = 12"
| "width F_mtime = 12"
| "width F_chksum = 8"
| "width F_typeflag = 1"
| "width F_linkname = 100"
| "width F_magic = 6"
| "width F_version = 2"
| "width F_uname = 32"
| "width F_gname = 32"
| "width F_devmajor = 8"
| "width F_devminor = 8"
| "width F_prefix = 155"
| "width F_pad = 12"

definition offset :: "field \<Rightarrow> nat" where
  "offset f = sum_list (map width (takeWhile (\<lambda>g. g \<noteq> f) fields_order))"

definition sizeof_TarHeader :: nat where
  "sizeof_TarHeader = sum_list (map width fields_order)"

text \<open>\<^verbatim>\<open>TarHeader()\<close>: a new structure is zero-filled.\<close>

definition TarHeader :: bytes where
  "TarHeader = replicate sizeof_TarHeader NUL"

text \<open>
  Reading a \<^verbatim>\<open>c_char * n\<close> field gives the bytes before the first NUL of the
  field (all \<open>n\<close> of them if there is none); reading the \<^verbatim>\<open>c_char\<close> field
  \<^verbatim>\<open>typeflag\<close> gives its one byte.
\<close>

definition c_string :: "bytes \<Rightarrow> bytes" where
  "c_string v = takeWhile (\<lambda>c. c \<noteq> NUL) v"

definition field_bytes :: "bytes \<Rightarrow> field \<Rightarrow> bytes" where
  "field_bytes h f = take (width f) (drop (offset f) h)"

definition get_field :: "bytes \<Rightarrow> field \<Rightarrow> bytes" where
  "get_field h f =
     (if f = F_typeflag then field_bytes h f else c_string (field_bytes h f))"

text \<open>
  Assigning to a \<^verbatim>\<open>c_char * n\<close> field: the value is cut at its first NUL; more
  than \<open>n\<close> bytes raise \<^verbatim>\<open>ValueError\<close> (bytes too long); otherwise the bytes
  are copied over the start of the field, followed by one NUL when there is
  room for it, and the rest of the field keeps what it held. Assigning to the
  \<^verbatim>\<open>c_char\<close> field \<^verbatim>\<open>typeflag\<close> needs exactly one byte and raises
  \<^verbatim>\<open>TypeError\<close> otherwise.
\<close>

definition overlay :: "bytes \<Rightarrow> nat \<Rightarrow> bytes \<Rightarrow> bytes" where
  "overlay h off v = take off h @ v @ drop (off + length v) h"

definition set_field :: "bytes \<Rightarrow> field \<Rightarrow> bytes \<Rightarrow> py_error + bytes" where
  "set_field h f v =
     (if f = F_typeflag then
        (if length v = 1 then Inr (overlay h (offset f) v) else Inl TypeError)
      else
        (let data = c_string v in
         if length data > width f then Inl ValueError
         else if length data < width f then Inr (overlay h (offset f) (data @ [NUL]))
         else Inr (overlay h (offset f) data)))"

text \<open>
  What an assignment leaves at the start of the field it writes, and when it
  does not raise.
\<close>

definition stored :: "field \<Rightarrow> bytes \<Rightarrow> bytes" where
  "stored f v =
     (if f = F_typeflag then v
      else if length (c_string v) < width f then c_string v @ [NUL] else c_string v)"

definition fits :: "field \<times> bytes \<Rightarrow> bool" where
  "fits a = (if fst a = F_typeflag then length (snd a) = 1
             else length (c_string (snd a)) \<le> width (fst a))"

text \<open>A run of assignments; the first one that raises ends it.\<close>

fun assign :: "bytes \<Rightarrow> (field \<times> bytes) list \<Rightarrow> py_error + bytes" where
  "assign h [] = Inr h"
| "assign h ((f, v) # as) =
     (case set_field h f v of Inl e \<Rightarrow> Inl e | Inr h' \<Rightarrow> assign h' as)"

section \<open>Octal text\<close>

text \<open>
  \<^verbatim>\<open>'{:0Wo}'.format(n)\<close>: the octal digits of \<open>|n|\<close>, a minus sign first when
  \<open>n\<close> is negative, zeros between sign and digits up to a total of \<open>W\<close>
  characters; \<^verbatim>\<open>'{:o}'\<close> is the case \<open>W = 0\<close>. The text is never cut.
\<close>

definition oct_digit :: "nat \<Rightarrow> char" where
  "oct_digit d = ''01234567'' ! d"

fun oct_digits :: "nat \<Rightarrow> string" where
  "oct_digits n = (if n < 8 then [oct_digit n] else oct_digits (n div 8) @ [oct_digit (n mod 8)])"

declare oct_digits.simps [simp del]

definition format_o :: "nat \<Rightarrow> int \<Rightarrow> string" where
  "format_o w n =
     (let ds = oct_digits (nat \<bar>n\<bar>);
          sign = (if n < 0 then ''-'' else [])
      in sign @ replicate (w - length sign - length ds) (CHR ''0'') @ ds)"

text \<open>
  \<^verbatim>\<open>int(text, 8)\<close> on a byte string: white space around the number is
  skipped, then an optional sign, an optional \<^verbatim>\<open>0o\<close> prefix, and at least one
  octal digit, with single underscores allowed between digits (and after the
  prefix). Anything else raises \<^verbatim>\<open>ValueError\<close>.
\<close>

definition is_space :: "char \<Rightarrow> bool" where
  "is_space c = (c = CHR '' '' \<or> c = CHR 0x09 \<or> c = CHR 0x0A \<or> c = CHR 0x0B
                 \<or> c = CHR 0x0C \<or> c = CHR 0x0D)"

definition is_oct_digit :: "char \<Rightarrow> bool" where
  "is_oct_digit c = (48 \<le> (of_char c :: nat) \<and> (of_char c :: nat) < 56)"

text \<open>A character of a number's text that is a digit and nothing else to the parser.\<close>

definition plain :: "char \<Rightarrow> bool" where
  "plain c = (is_oct_digit c \<and> c \<noteq> NUL \<and> \<not> is_space c \<and> c \<noteq> CHR ''-'' \<and> c \<noteq> CHR ''+''
              \<and> c \<noteq> CHR ''o'' \<and> c \<noteq> CHR ''O'' \<and> c \<noteq> CHR ''_'')"

definition strip :: "string \<Rightarrow> string" where
  "strip s = rev (dropWhile is_space (rev (dropWhile is_space s)))"

text \<open>
  The digits, left to right: \<open>us\<close> says that an underscore may come next (the
  previous character was a digit or the prefix), \<open>seen\<close> that a digit was read.
\<close>

fun oct_value :: "bool \<Rightarrow> bool \<Rightarrow> nat \<Rightarrow> string \<Rightarrow> nat option" where
  "oct_value us seen acc [] = (if us \<and> seen then Some acc else None)"
| "oct_value us seen acc (c # cs) =
     (if is_oct_digit c then oct_value True True (acc * 8 + (of_char c - 48)) cs
      else if c = CHR ''_'' \<and> us then oct_value False seen acc cs
      else None)"

definition has_oct_prefix :: "string \<Rightarrow> bool" where
  "has_oct_prefix s = (take 2 s = ''0o'' \<or> take 2 s = ''0O'')"

definition int_oct :: "bytes \<Rightarrow> py_error + int" where
  "int_oct text =
     (let s = strip text;
          neg = (take 1 s = ''-'');
          s1 = (if take 1 s = ''-'' \<or> take 1 s = ''+'' then drop 1 s else s);
          r = (if has_oct_prefix s1 then oct_value True False 0 (drop 2 s1)
               else oct_value False False 0 s1)
      in case r of
           None \<Rightarrow> Inl ValueError
         | Some n \<Rightarrow> Inr (if neg then - int n else int n))"

section \<open>Checksum\<close>

text \<open>
  \<^verbatim>\<open>get_header_checksum\<close>: the structure is written to a byte stream, read back
  whole, and the byte values are added up.
\<close>

definition get_header_checksum :: "bytes \<Rightarrow> nat" where
  "get_header_checksum header = (let data = header in sum_list (map (\<lambda>x. of_char x) data))"

section \<open>Files as byte streams\<close>

text \<open>
  An open file is what is left to read of it. \<^verbatim>\<open>read(n)\<close> returns the next
  \<open>n\<close> bytes, fewer at the end of the file, and everything that is left when
  \<open>n\<close> is negative.
\<close>

definition file_read :: "bytes \<Rightarrow> int \<Rightarrow> bytes \<times> bytes" where
  "file_read f n = (if n < 0 then (f, []) else (take (nat n) f, drop (nat n) f))"

section \<open>Reading in chunks\<close>

text \<open>
  \<^verbatim>\<open>read_file_in_chunks\<close> is a generator; its consumers drain it in a
  \<^verbatim>\<open>for\<close> loop, so the model runs it to its end. The result holds the
  chunks it yields, the size asked of each \<^verbatim>\<open>read\<close> call in turn, and what
  is left of the stream afterwards. \<open>read_bytes\<close> is the loop's counter and
  \<open>read_size\<close> the size the loop asks for next.
\<close>

definition read_size :: "int \<Rightarrow> int \<Rightarrow> int \<Rightarrow> int" where
  "read_size file_size chunk_size read_bytes =
     (if read_bytes > file_size - chunk_size then file_size - read_bytes else chunk_size)"

function read_chunks :: "bytes \<Rightarrow> int \<Rightarrow> int \<Rightarrow> int \<Rightarrow> bytes list \<times> int list \<times> bytes" where
  "read_chunks in_file file_size chunk_size read_bytes =
     (let n = read_size file_size chunk_size read_bytes;
          chunk = fst (file_read in_file n);
          rest = snd (file_read in_file n)
      in if chunk \<noteq> [] then
           (case read_chunks rest file_size chunk_size (read_bytes + int (length chunk)) of
              (chunks, reads, left) \<Rightarrow> (chunk # chunks, n # reads, left))
         else ([], [n], rest))"
  by pat_completeness auto
termination
proof (relation "measure (\<lambda>(in_file, file_size, chunk_size, read_bytes). length in_file)")
  show "wf (measure (\<lambda>(in_file, file_size, chunk_size, read_bytes). length in_file))"
    by simp
next
  fix in_file :: bytes and file_size chunk_size read_bytes n :: int and chunk rest :: bytes
  assume "chunk = fst (file_read in_file n)" and "rest = snd (file_read in_file n)"
    and "chunk \<noteq> []"
  then have "length rest < length in_file"
    by (cases "n < 0") (auto simp: file_read_def)
  then show "((rest, file_size, chunk_size, read_bytes + int (length chunk)),
              (in_file, file_size, chunk_size, read_bytes))
             \<in> measure (\<lambda>(in_file, file_size, chunk_size, read_bytes). length in_file)"
    by simp
qed

declare read_chunks.simps [simp del]

definition read_file_in_chunks :: "bytes \<Rightarrow> int \<Rightarrow> int \<Rightarrow> bytes list \<times> int list \<times> bytes" where
  "read_file_in_chunks in_file file_size chunk_size = read_chunks in_file file_size chunk_size 0"

text \<open>
  \<^verbatim>\<open>int(math.ceil(file_size / 512.0) * 512) - file_size\<close>. The division is a
  floating-point one; it is exact for every size below \<open>2 ^ 53\<close>, which covers
  every size a header can hold (fewer than \<open>8 ^ 12\<close>), so the model computes
  the ceiling on integers.
\<close>

definition padding_size :: "int \<Rightarrow> int" where
  "padding_size file_size = - ((- file_size) div 512) * 512 - file_size"

section \<open>The file system\<close>

text \<open>
  \<^verbatim>\<open>os.stat_result\<close>, with the fields the program reads. \<open>st_mtime\<close> is the
  time stamp already cut to whole seconds (\<^verbatim>\<open>int(file_stat.st_mtime)\<close>).
\<close>

record stat_result =
  st_mode :: nat
  st_ino :: nat
  st_dev :: nat
  st_uid :: nat
  st_gid :: nat
  st_size :: nat
  st_mtime :: int

text \<open>The file type bits of \<^verbatim>\<open>stat\<close>: \<open>0o170000\<close> is the mask.\<close>

definition S_IFMT :: "nat \<Rightarrow> nat" where
  "S_IFMT mode = mode AND 61440"

definition S_IFIFO :: nat where "S_IFIFO = 4096"
definition S_IFCHR :: nat where "S_IFCHR = 8192"
definition S_IFDIR :: nat where "S_IFDIR = 16384"
definition S_IFBLK :: nat where "S_IFBLK = 24576"
definition S_IFREG :: nat where "S_IFREG = 32768"
definition S_IFLNK :: nat where "S_IFLNK = 40960"

definition S_ISREG :: "nat \<Rightarrow> bool" where "S_ISREG mode = (S_IFMT mode = S_IFREG)"
definition S_ISLNK :: "nat \<Rightarrow> bool" where "S_ISLNK mode = (S_IFMT mode = S_IFLNK)"
definition S_ISCHR :: "nat \<Rightarrow> bool" where "S_ISCHR mode = (S_IFMT mode = S_IFCHR)"
definition S_ISBLK :: "nat \<Rightarrow> bool" where "S_ISBLK mode = (S_IFMT mode = S_IFBLK)"
definition S_ISDIR :: "nat \<Rightarrow> bool" where "S_ISDIR mode = (S_IFMT mode = S_IFDIR)"
definition S_ISFIFO :: "nat \<Rightarrow> bool" where "S_ISFIFO mode = (S_IFMT mode = S_IFIFO)"

text \<open>
  A path names an object with its own \<^verbatim>\<open>stat\<close> data and contents (the bytes of
  a regular file; empty for every other kind), or a symbolic link to another
  path. Paths are compared as they are spelt: two spellings of one path are
  two names, and a link's target is stored as the path it resolves to.

  The rest of the environment: the process's \<open>umask\<close>; \<open>created\<close>, the owner,
  device, inode and time stamp the system gives an object the process creates
  (and the size it gives a new directory);
  \<open>walk\<close>, what \<^verbatim>\<open>os.walk\<close> enumerates below a directory (the traversal is not
  the program's); \<open>username\<close> and \<open>groupname\<close>, the results of
  \<^verbatim>\<open>getpass.getuser()\<close> and \<^verbatim>\<open>get_group_name\<close>.
\<close>

datatype node = Node stat_result bytes | Symlink string

record world =
  fs :: "string \<Rightarrow> node option"
  umask :: nat
  created :: stat_result
  walk :: "string \<Rightarrow> (string \<times> string list \<times> string list) list"
  username :: string
  groupname :: string

text \<open>
  Resolving a path follows symbolic links, at most 40 in a row (more is the
  system's \<^verbatim>\<open>ELOOP\<close>). \<open>follow\<close> ends at the first name that is not a link,
  whether it exists or not.
\<close>

fun follow :: "(string \<Rightarrow> node option) \<Rightarrow> nat \<Rightarrow> string \<Rightarrow> string option" where
  "follow f 0 p = (case f p of Some (Symlink t) \<Rightarrow> None | _ \<Rightarrow> Some p)"
| "follow f (Suc n) p = (case f p of Some (Symlink t) \<Rightarrow> follow f n t | _ \<Rightarrow> Some p)"

definition resolve :: "world \<Rightarrow> string \<Rightarrow> string option" where
  "resolve w p = follow (fs w) 40 p"

text \<open>
  \<^verbatim>\<open>os.stat\<close> follows symbolic links: it describes the object a path resolves
  to, and raises \<^verbatim>\<open>OSError\<close> when there is none.
\<close>

definition os_stat :: "world \<Rightarrow> string \<Rightarrow> py_error + stat_result" where
  "os_stat w p =
     (case resolve w p of
        None \<Rightarrow> Inl OSError
      | Some q \<Rightarrow> (case fs w q of Some (Node st d) \<Rightarrow> Inr st | _ \<Rightarrow> Inl OSError))"

definition os_path_exists :: "world \<Rightarrow> string \<Rightarrow> bool" where
  "os_path_exists w p = (case os_stat w p of Inl e \<Rightarrow> False | Inr st \<Rightarrow> True)"

definition os_path_isfile :: "world \<Rightarrow> string \<Rightarrow> bool" where
  "os_path_isfile w p = (case os_stat w p of Inl e \<Rightarrow> False | Inr st \<Rightarrow> S_ISREG (st_mode st))"

definition os_path_isdir :: "world \<Rightarrow> string \<Rightarrow> bool" where
  "os_path_isdir w p = (case os_stat w p of Inl e \<Rightarrow> False | Inr st \<Rightarrow> S_ISDIR (st_mode st))"

definition os_path_getsize :: "world \<Rightarrow> string \<Rightarrow> py_error + nat" where
  "os_path_getsize w p = (case os_stat w p of Inl e \<Rightarrow> Inl e | Inr st \<Rightarrow> Inr (st_size st))"

definition os_path_realpath :: "world \<Rightarrow> string \<Rightarrow> string" where
  "os_path_realpath w p = (case resolve w p of None \<Rightarrow> p | Some q \<Rightarrow> q)"

text \<open>\<^verbatim>\<open>posixpath.join(a, b)\<close> and \<^verbatim>\<open>posixpath.dirname(p)\<close>.\<close>

definition os_path_join :: "string \<Rightarrow> string \<Rightarrow> string" where
  "os_path_join a b =
     (if take 1 b = ''/'' then b
      else if a = [] \<or> last a = CHR ''/'' then a @ b
      else a @ ''/'' @ b)"

definition os_path_dirname :: "string \<Rightarrow> string" where
  "os_path_dirname p =
     (let head = rev (dropWhile (\<lambda>c. c \<noteq> CHR ''/'') (rev p))
      in if head \<noteq> [] \<and> head \<noteq> replicate (length head) (CHR ''/'')
         then rev (dropWhile (\<lambda>c. c = CHR ''/'') (rev head)) else head)"

text \<open>
  A new object can be created under a name when the name's directory exists
  (the empty directory name is the working directory).
\<close>

definition parent_ok :: "world \<Rightarrow> string \<Rightarrow> bool" where
  "parent_ok w p = (os_path_dirname p = [] \<or> os_path_isdir w (os_path_dirname p))"

text \<open>
  \<^verbatim>\<open>open(p, 'rb')\<close> followed by reading: the contents of the regular file the
  path resolves to.
\<close>

definition open_rb :: "world \<Rightarrow> string \<Rightarrow> py_error + bytes" where
  "open_rb w p =
     (case resolve w p of
        None \<Rightarrow> Inl IOError
      | Some q \<Rightarrow>
          (case fs w q of
             Some (Node st d) \<Rightarrow> if S_ISDIR (st_mode st) then Inl IOError else Inr d
           | _ \<Rightarrow> Inl IOError))"

text \<open>
  \<^verbatim>\<open>open(p, 'wb')\<close> (\<open>trunc\<close>) and \<^verbatim>\<open>open(p, 'ab')\<close>: an existing file is
  opened, emptied first by \<^verbatim>\<open>'wb'\<close>, and keeps its mode; a missing one is
  created empty with mode \<open>0o666 & ~umask\<close>. The result names the file that
  was opened. \<open>write_bytes\<close> is what the writes to it, taken together, do.
\<close>

definition open_write :: "world \<Rightarrow> bool \<Rightarrow> string \<Rightarrow> py_error + (world \<times> string)" where
  "open_write w trunc p =
     (case resolve w p of
        None \<Rightarrow> Inl IOError
      | Some q \<Rightarrow>
          (case fs w q of
             Some (Node st d) \<Rightarrow>
               if S_ISDIR (st_mode st) then Inl IOError
               else if trunc then Inr (w\<lparr>fs := (fs w)(q \<mapsto> Node (st\<lparr>st_size := 0\<rparr>) [])\<rparr>, q)
               else Inr (w, q)
           | _ \<Rightarrow>
               if parent_ok w q then
                 Inr (w\<lparr>fs := (fs w)(q \<mapsto>
                        Node ((created w)\<lparr>st_mode := S_IFREG OR nat (438 AND NOT (int (umask w))),
                                          st_size := 0\<rparr>) [])\<rparr>, q)
               else Inl IOError))"

definition write_bytes :: "world \<Rightarrow> string \<Rightarrow> bytes \<Rightarrow> world" where
  "write_bytes w q data =
     (case fs w q of
        Some (Node st d) \<Rightarrow>
          w\<lparr>fs := (fs w)(q \<mapsto> Node (st\<lparr>st_size := length (d @ data)\<rparr>) (d @ data))\<rparr>
      | _ \<Rightarrow> w)"

text \<open>
  \<^verbatim>\<open>os.mkdir\<close> and \<^verbatim>\<open>os.makedirs\<close>: \<^verbatim>\<open>mkdir\<close> raises when the name is taken
  or its directory is missing; \<^verbatim>\<open>makedirs\<close> first creates the missing
  directories above the name, top down, and keeps what it created when a
  later step raises.
\<close>

definition os_mkdir :: "world \<Rightarrow> string \<Rightarrow> py_error + world" where
  "os_mkdir w p =
     (if fs w p \<noteq> None \<or> \<not> parent_ok w p then Inl OSError
      else Inr (w\<lparr>fs := (fs w)(p \<mapsto>
                  Node ((created w)\<lparr>st_mode := S_IFDIR OR nat (511 AND NOT (int (umask w)))\<rparr>) [])\<rparr>))"

definition path_prefixes :: "string \<Rightarrow> string list" where
  "path_prefixes p =
     map (\<lambda>i. take (Suc i) p)
       (filter (\<lambda>i. p ! i \<noteq> CHR ''/'' \<and> p ! Suc i = CHR ''/'') [0..<length p - 1])"

fun mkdir_missing :: "world \<Rightarrow> string list \<Rightarrow> py_error option \<times> world" where
  "mkdir_missing w [] = (None, w)"
| "mkdir_missing w (d # ds) =
     (if os_path_exists w d then mkdir_missing w ds
      else (case os_mkdir w d of
              Inl e \<Rightarrow> (Some e, w)
            | Inr w' \<Rightarrow> mkdir_missing w' ds))"

definition os_makedirs :: "world \<Rightarrow> string \<Rightarrow> py_error option \<times> world" where
  "os_makedirs w p =
     (case mkdir_missing w (path_prefixes p) of
        (Some e, w') \<Rightarrow> (Some e, w')
      | (None, w') \<Rightarrow> (case os_mkdir w' p of Inl e \<Rightarrow> (Some e, w') | Inr w'' \<Rightarrow> (None, w'')))"

section \<open>Writing an archive\<close>

definition TAR_TYPE_REGULAR_FILE :: string where "TAR_TYPE_REGULAR_FILE = ''0''"
definition TAR_TYPE_REGULAR_FILE_ALIAS :: string where "TAR_TYPE_REGULAR_FILE_ALIAS = [NUL]"
definition TAR_TYPE_HARDLINK :: string where "TAR_TYPE_HARDLINK = ''1''"
definition TAR_TYPE_SYMLINK :: string where "TAR_TYPE_SYMLINK = ''2''"
definition TAR_TYPE_CHAR :: string where "TAR_TYPE_CHAR = ''3''"
definition TAR_TYPE_BLOCK :: string where "TAR_TYPE_BLOCK = ''4''"
definition TAR_TYPE_DIR :: string where "TAR_TYPE_DIR = ''5''"
definition TAR_TYPE_FIFO :: string where "TAR_TYPE_FIFO = ''6''"

definition is_hard_link :: "world \<Rightarrow> string \<Rightarrow> py_error + bool" where
  "is_hard_link w filename =
     (case os_stat w filename of
        Inl e \<Rightarrow> Inl e
      | Inr file_stat \<Rightarrow>
          if \<not> S_ISLNK (st_mode file_stat) then Inr False
          else (let linkname = os_path_realpath w filename in
                case os_stat w linkname of
                  Inl e \<Rightarrow> Inl e
                | Inr link_file_stat \<Rightarrow>
                    Inr (st_dev file_stat = st_dev link_file_stat
                         \<and> st_ino file_stat = st_ino link_file_stat)))"

text \<open>
  The part of \<^verbatim>\<open>add\<close> under \<^verbatim>\<open># set file type\<close>: the type flag and the link
  name of an entry, from the \<^verbatim>\<open>os.stat\<close> of its path. The type flag stays
  empty for a kind of object the chain does not name.
\<close>

definition file_type :: "world \<Rightarrow> string \<Rightarrow> stat_result \<Rightarrow> py_error + (string \<times> string)" where
  "file_type w filename file_stat =
     (let file_mode = st_mode file_stat in
      if S_ISREG file_mode then Inr (TAR_TYPE_REGULAR_FILE, [])
      else if S_ISLNK file_mode then
        (case is_hard_link w filename of
           Inl e \<Rightarrow> Inl e
         | Inr hard \<Rightarrow>
             Inr (if hard then TAR_TYPE_HARDLINK else TAR_TYPE_SYMLINK,
                  os_path_realpath w filename))
      else if S_ISCHR file_mode then Inr (TAR_TYPE_CHAR, [])
      else if S_ISBLK file_mode then Inr (TAR_TYPE_BLOCK, [])
      else if S_ISDIR file_mode then Inr (TAR_TYPE_DIR, [])
      else if S_ISFIFO file_mode then Inr (TAR_TYPE_FIFO, [])
      else Inr ([], []))"

text \<open>
  The header of an entry, as \<^verbatim>\<open>add\<close> fills it in: seventeen assignments to a
  new structure, then the checksum of the result written over the eight
  spaces of the checksum field.
\<close>

definition header_assignments ::
    "world \<Rightarrow> string \<Rightarrow> stat_result \<Rightarrow> string \<Rightarrow> string \<Rightarrow> (field \<times> bytes) list" where
  "header_assignments w filename file_stat typeflag linkname =
     [(F_name, take 99 filename),
      (F_mode, format_o 7 (int (st_mode file_stat AND 511))),
      (F_uid, format_o 7 (int (st_uid file_stat))),
      (F_gid, format_o 7 (int (st_gid file_stat))),
      (F_size, format_o 11 (int (if typeflag \<noteq> TAR_TYPE_DIR then st_size file_stat else 0))),
      (F_mtime, format_o 0 (st_mtime file_stat)),
      (F_chksum, replicate 8 (CHR '' '')),
      (F_typeflag, typeflag),
      (F_linkname, take 99 linkname),
      (F_magic, ''ustar'' @ [NUL]),
      (F_version, ''00''),
      (F_uname, take 32 (username w)),
      (F_gname, groupname w),
      (F_devmajor, ''0000000'' @ [NUL]),
      (F_devminor, ''0000000'' @ [NUL]),
      (F_prefix, []),
      (F_pad, [])]"

definition tar_header_of :: "world \<Rightarrow> string \<Rightarrow> stat_result \<Rightarrow> string \<Rightarrow> string \<Rightarrow> py_error + bytes" where
  "tar_header_of w filename file_stat typeflag linkname =
     (case assign TarHeader (header_assignments w filename file_stat typeflag linkname) of
        Inl e \<Rightarrow> Inl e
      | Inr tar_header \<Rightarrow>
          set_field tar_header F_chksum (format_o 6 (int (get_header_checksum tar_header))))"

text \<open>
  What \<^verbatim>\<open>add\<close> writes after the header: the data of the entry, if any, and
  the padding.
\<close>

definition entry_data :: "world \<Rightarrow> string \<Rightarrow> string \<Rightarrow> nat \<Rightarrow> py_error + bytes" where
  "entry_data w filename typeflag file_size =
     (if (typeflag = TAR_TYPE_REGULAR_FILE \<or> typeflag = TAR_TYPE_HARDLINK
          \<or> typeflag = TAR_TYPE_SYMLINK) \<and> file_size \<noteq> 0 then
        (case open_rb w filename of
           Inl e \<Rightarrow> Inl e
         | Inr in_file \<Rightarrow> Inr (concat (fst (read_file_in_chunks in_file (int file_size) 8192))))
      else Inr [])"

definition entry_padding :: "nat \<Rightarrow> bytes" where
  "entry_padding file_size = replicate (nat (padding_size (int file_size))) NUL"

text \<open>
  \<^verbatim>\<open>add\<close>. The archive is opened before the header is built, so an archive
  that was missing exists even when the header raises; an exception carries no
  state in the model. The writes are buffered and the entry is read from the
  file system as it is before they land.
\<close>

definition add :: "world \<Rightarrow> string \<Rightarrow> string \<Rightarrow> py_error + (bool \<times> world)" where
  "add w archive filename =
     (if \<not> os_path_exists w filename then Inr (False, w)
      else
        (case os_stat w filename of Inl e \<Rightarrow> Inl e | Inr file_stat \<Rightarrow>
        (case file_type w filename file_stat of Inl e \<Rightarrow> Inl e | Inr (typeflag, linkname) \<Rightarrow>
        (case open_write w (\<not> os_path_exists w archive) archive of Inl e \<Rightarrow> Inl e | Inr (w1, out) \<Rightarrow>
        (case tar_header_of w filename file_stat typeflag linkname of Inl e \<Rightarrow> Inl e | Inr tar_header \<Rightarrow>
        (case os_path_getsize w1 filename of Inl e \<Rightarrow> Inl e | Inr file_size \<Rightarrow>
        (case entry_data w1 filename typeflag file_size of Inl e \<Rightarrow> Inl e | Inr data \<Rightarrow>
          Inr (True, write_bytes w1 out (tar_header @ data @ entry_padding file_size)))))))))"

text \<open>\<^verbatim>\<open>create\<close>, with its two loops over what \<^verbatim>\<open>os.walk\<close> yields.\<close>

fun add_files :: "world \<Rightarrow> string \<Rightarrow> string \<Rightarrow> bool \<Rightarrow> string list \<Rightarrow> py_error + (bool \<times> world)" where
  "add_files w archive dirname result [] = Inr (result, w)"
| "add_files w archive dirname result (filename # files) =
     (case add w archive (os_path_join dirname filename) of
        Inl e \<Rightarrow> Inl e
      | Inr (r, w') \<Rightarrow> add_files w' archive dirname (result \<or> r) files)"

fun add_walk :: "world \<Rightarrow> string \<Rightarrow> bool \<Rightarrow> (string \<times> string list \<times> string list) list
                 \<Rightarrow> py_error + (bool \<times> world)" where
  "add_walk w archive result [] = Inr (result, w)"
| "add_walk w archive result ((dirname, dirs, files) # rest) =
     (case add w archive dirname of
        Inl e \<Rightarrow> Inl e
      | Inr (r, w1) \<Rightarrow>
          (case add_files w1 archive dirname (result \<or> r) files of
             Inl e \<Rightarrow> Inl e
           | Inr (result', w2) \<Rightarrow> add_walk w2 archive result' rest))"

definition create :: "world \<Rightarrow> string \<Rightarrow> string \<Rightarrow> py_error + (bool \<times> world)" where
  "create w archive file_or_dir =
     (if \<not> os_path_exists w file_or_dir then Inr (False, w)
      else
        (case open_write w True archive of Inl e \<Rightarrow> Inl e | Inr (w0, out) \<Rightarrow>
          if os_path_isfile w0 file_or_dir then
            (case add w0 archive file_or_dir of
               Inl e \<Rightarrow> Inl e
             | Inr (r, w1) \<Rightarrow> Inr (True \<or> r, w1))
          else add_walk w0 archive True (walk w0 file_or_dir)))"

section \<open>Reading an archive\<close>

text \<open>
  \<^verbatim>\<open>in_file.readinto(tar_header)\<close> on a new structure: up to 512 bytes of the
  file replace the start of the structure, the rest stays zero.
\<close>

definition readinto :: "bytes \<Rightarrow> bytes \<times> bytes" where
  "readinto in_file =
     (let data = fst (file_read in_file (int sizeof_TarHeader));
          rest = snd (file_read in_file (int sizeof_TarHeader))
      in (overlay TarHeader 0 data, rest))"

text \<open>
  One round of a reader's loop ends the scan (\<open>Done\<close>), raises, or handles an
  entry and leaves the rest of the archive to the next round.
\<close>

datatype 'a scan = Done | Raised py_error | Entry 'a bytes

text \<open>
  One round of the loop of \<^verbatim>\<open>extract\<close>. An entry's result is the output path
  (what the verbose mode prints) and the file system after it. A failing
  \<^verbatim>\<open>os.makedirs\<close> is ignored, as in the source.
\<close>

definition extract_entry :: "world \<Rightarrow> string \<Rightarrow> bytes \<Rightarrow> (string \<times> world) scan" where
  "extract_entry w dest_path in_file =
     (let tar_header = fst (readinto in_file);
          in1 = snd (readinto in_file);
          name = get_field tar_header F_name
      in if name = [] then Done
         else
           (case int_oct (get_field tar_header F_size) of
              Inl e \<Rightarrow> Raised e
            | Inr file_size \<Rightarrow>
                (let out_path = os_path_join dest_path name;
                     typeflag = get_field tar_header F_typeflag
                 in if typeflag = TAR_TYPE_REGULAR_FILE \<or> typeflag = TAR_TYPE_REGULAR_FILE_ALIAS then
                      (case open_write w True out_path of
                         Inl e \<Rightarrow> Raised e
                       | Inr (w1, f) \<Rightarrow>
                           (case read_file_in_chunks in1 file_size 8192 of
                              (chunks, reads, in2) \<Rightarrow>
                                Entry (out_path, write_bytes w1 f (concat chunks))
                                  (snd (file_read in2 (padding_size file_size)))))
                    else if typeflag = TAR_TYPE_DIR then
                      Entry (out_path, snd (os_makedirs w out_path))
                        (snd (file_read in1 (padding_size file_size)))
                    else
                      Entry (out_path, w) (snd (file_read in1 (padding_size file_size))))))"

lemma file_read_length: "length (snd (file_read f n)) \<le> length f"
  by (simp add: file_read_def)

lemma read_chunks_stop:
  "fst (file_read f (read_size file_size chunk_size read_bytes)) = [] \<Longrightarrow>
   read_chunks f file_size chunk_size read_bytes =
     ([], [read_size file_size chunk_size read_bytes],
      snd (file_read f (read_size file_size chunk_size read_bytes)))"
  by (subst read_chunks.simps) (simp add: Let_def)

lemma read_chunks_step:
  "fst (file_read f (read_size file_size chunk_size read_bytes)) \<noteq> [] \<Longrightarrow>
   read_chunks f file_size chunk_size read_bytes =
     (case read_chunks (snd (file_read f (read_size file_size chunk_size read_bytes)))
             file_size chunk_size
             (read_bytes + int (length (fst (file_read f (read_size file_size chunk_size read_bytes))))) of
        (chunks, reads, left) \<Rightarrow>
          (fst (file_read f (read_size file_size chunk_size read_bytes)) # chunks,
           read_size file_size chunk_size read_bytes # reads, left))"
  by (subst read_chunks.simps) (simp add: Let_def)

lemma read_chunks_length:
  "length (snd (snd (read_chunks f file_size chunk_size read_bytes))) \<le> length f"
proof (induction f file_size chunk_size read_bytes rule: read_chunks.induct)
  case (1 in_file file_size chunk_size read_bytes)
  let ?n = "read_size file_size chunk_size read_bytes"
  show ?case
  proof (cases "fst (file_read in_file ?n) = []")
    case True
    then show ?thesis
      by (simp add: read_chunks_stop file_read_length)
  next
    case False
    have "length (snd (snd (read_chunks (snd (file_read in_file ?n)) file_size chunk_size
             (read_bytes + int (length (fst (file_read in_file ?n))))))) \<le>
          length (snd (file_read in_file ?n))"
      using "1.IH" [OF refl refl refl False] .
    also have "\<dots> \<le> length in_file"
      by (rule file_read_length)
    finally show ?thesis
      using False by (simp add: read_chunks_step case_prod_unfold)
  qed
qed
lemma readinto_empty_name:
  "get_field (fst (readinto [])) F_name = []"
  by (simp add: readinto_def file_read_def overlay_def get_field_def field_bytes_def
      c_string_def TarHeader_def sizeof_TarHeader_def fields_order_def offset_def)

lemma readinto_shorter:
  assumes "get_field (fst (readinto in_file)) F_name \<noteq> []"
  shows "length (snd (readinto in_file)) < length in_file"
proof -
  from assms have "in_file \<noteq> []"
    using readinto_empty_name by auto
  then show ?thesis
    by (simp add: readinto_def file_read_def sizeof_TarHeader_def fields_order_def)
qed

lemma read_file_in_chunks_length:
  "read_file_in_chunks f n c = (chunks, reads, left) \<Longrightarrow> length left \<le> length f"
  using read_chunks_length [of f n c 0] by (simp add: read_file_in_chunks_def)

lemma extract_entry_shorter:
  assumes "extract_entry w dest_path in_file = Entry r rest"
  shows "length rest < length in_file"
proof -
  define in1 where "in1 = snd (readinto in_file)"
  have name: "get_field (fst (readinto in_file)) F_name \<noteq> []"
    using assms by (auto simp: extract_entry_def Let_def)
  have a: "length (snd (file_read in1 m)) \<le> length in1" for m
    by (rule file_read_length)
  have b: "length (snd (file_read left m)) \<le> length in1"
    if "read_file_in_chunks in1 n 8192 = (chunks, reads, left)" for n m chunks reads left
    using read_file_in_chunks_length [OF that] file_read_length [of left m] by simp
  have "(\<exists>m. rest = snd (file_read in1 m)) \<or>
        (\<exists>n m chunks reads left. read_file_in_chunks in1 n 8192 = (chunks, reads, left)
            \<and> rest = snd (file_read left m))"
    using assms name unfolding extract_entry_def Let_def in1_def [symmetric]
    by (simp split: sum.splits prod.splits if_splits) blast+
  then have "length rest \<le> length in1"
    using a b by blast
  with readinto_shorter [OF name] show ?thesis
    by (simp add: in1_def)
qed

function extract_entries :: "world \<Rightarrow> string \<Rightarrow> bytes \<Rightarrow> py_error + world" where
  "extract_entries w dest_path in_file =
     (case extract_entry w dest_path in_file of
        Done \<Rightarrow> Inr w
      | Raised e \<Rightarrow> Inl e
      | Entry r rest \<Rightarrow> extract_entries (snd r) dest_path rest)"
  by pat_completeness auto
termination
proof (relation "measure (\<lambda>(w, dest_path, in_file). length in_file)")
  show "wf (measure (\<lambda>(w, dest_path, in_file). length in_file))"
    by simp
next
  fix w :: world and dest_path :: string and in_file rest :: bytes and r :: "string \<times> world"
  assume "extract_entry w dest_path in_file = Entry r rest"
  then have "length rest < length in_file"
    by (rule extract_entry_shorter)
  then show "((snd r, dest_path, rest), (w, dest_path, in_file))
             \<in> measure (\<lambda>(w, dest_path, in_file). length in_file)"
    by simp
qed

declare extract_entries.simps [simp del]


text \<open>
  \<^verbatim>\<open>permission_bits\<close>: the type letter and the nine permission letters.
\<close>

definition TYPE_FLAGS :: "(string \<times> string) list" where
  "TYPE_FLAGS =
     [(TAR_TYPE_REGULAR_FILE, ''-''), (TAR_TYPE_REGULAR_FILE_ALIAS, ''-''),
      (TAR_TYPE_HARDLINK, ''h''), (TAR_TYPE_SYMLINK, ''l''), (TAR_TYPE_CHAR, ''c''),
      (TAR_TYPE_BLOCK, ''b''), (TAR_TYPE_DIR, ''d''), (TAR_TYPE_FIFO, ''p'')]"

definition flag :: "bool \<Rightarrow> string \<Rightarrow> string" where
  "flag b s = (if b then s else ''-'')"

definition permission_bits :: "bytes \<Rightarrow> bytes \<Rightarrow> py_error + string" where
  "permission_bits str_value typeflag =
     (case int_oct str_value of
        Inl e \<Rightarrow> Inl e
      | Inr v \<Rightarrow>
          if length typeflag \<noteq> 1 then Inl TypeError
          else Inr
            ((case map_of TYPE_FLAGS typeflag of None \<Rightarrow> ''?'' | Some c \<Rightarrow> c)
             @ flag (drop_bit 6 v AND 4 \<noteq> 0) ''r''
             @ flag (drop_bit 6 v AND 2 \<noteq> 0) ''w''
             @ flag (drop_bit 6 v AND 1 \<noteq> 0) ''x''
             @ flag (drop_bit 3 v AND 4 \<noteq> 0) ''r''
             @ flag (drop_bit 3 v AND 2 \<noteq> 0) ''w''
             @ flag (drop_bit 3 v AND 1 \<noteq> 0) ''x''
             @ flag (v AND 4 \<noteq> 0) ''r''
             @ flag (v AND 2 \<noteq> 0) ''w''
             @ flag (v AND 1 \<noteq> 0) ''x''))"

text \<open>
  One round of the loop of \<^verbatim>\<open>list_content\<close>. A printed line is kept as the
  values that go into it: permission text, user and group id, size, time stamp
  in seconds (its rendering as a date is left out), name, and the link name
  with the white space around it removed.
\<close>

type_synonym line = "string \<times> int \<times> int \<times> int \<times> int \<times> string \<times> string"

definition list_entry :: "bytes \<Rightarrow> line scan" where
  "list_entry f =
     (let tar_header = fst (readinto f);
          f1 = snd (readinto f);
          name = get_field tar_header F_name
      in if name = [] then Done
         else
           (case int_oct (get_field tar_header F_size) of
              Inl e \<Rightarrow> Raised e
            | Inr file_size \<Rightarrow>
           (case permission_bits (get_field tar_header F_mode) (get_field tar_header F_typeflag) of
              Inl e \<Rightarrow> Raised e
            | Inr perm \<Rightarrow>
           (case int_oct (get_field tar_header F_uid) of
              Inl e \<Rightarrow> Raised e
            | Inr uid \<Rightarrow>
           (case int_oct (get_field tar_header F_gid) of
              Inl e \<Rightarrow> Raised e
            | Inr gid \<Rightarrow>
           (case int_oct (get_field tar_header F_mtime) of
              Inl e \<Rightarrow> Raised e
            | Inr mtime \<Rightarrow>
                Entry (perm, uid, gid, file_size, mtime, name,
                       strip (get_field tar_header F_linkname))
                  (snd (file_read (snd (file_read f1 file_size)) (padding_size file_size)))))))))"

lemma list_entry_shorter:
  assumes "list_entry f = Entry r rest"
  shows "length rest < length f"
proof -
  define f1 where "f1 = snd (readinto f)"
  have name: "get_field (fst (readinto f)) F_name \<noteq> []"
    using assms by (auto simp: list_entry_def Let_def)
  have "\<exists>n m. rest = snd (file_read (snd (file_read f1 n)) m)"
    using assms name unfolding list_entry_def Let_def f1_def [symmetric]
    by (simp split: sum.splits) blast
  then obtain n m where "rest = snd (file_read (snd (file_read f1 n)) m)"
    by blast
  then have "length rest \<le> length f1"
    using file_read_length [of "snd (file_read f1 n)" m] file_read_length [of f1 n] by simp
  with readinto_shorter [OF name] show ?thesis
    by (simp add: f1_def)
qed

function list_entries :: "bytes \<Rightarrow> py_error + line list" where
  "list_entries f =
     (case list_entry f of
        Done \<Rightarrow> Inr []
      | Raised e \<Rightarrow> Inl e
      | Entry r rest \<Rightarrow>
          (case list_entries rest of Inl e \<Rightarrow> Inl e | Inr ls \<Rightarrow> Inr (r # ls)))"
  by pat_completeness auto
termination
proof (relation "measure length")
  show "wf (measure (length :: bytes \<Rightarrow> nat))"
    by simp
next
  fix f rest :: bytes and r :: line
  assume "list_entry f = Entry r rest"
  then have "length rest < length f"
    by (rule list_entry_shorter)
  then show "(rest, f) \<in> measure length"
    by simp
qed

declare list_entries.simps [simp del]

text \<open>
  \<^verbatim>\<open>list_content\<close>; the lines stand for what it prints. Lines printed before
  an exception are lost with it in the model.
\<close>

definition list_content :: "world \<Rightarrow> string \<Rightarrow> py_error + (bool \<times> line list)" where
  "list_content w archive =
     (case open_rb w archive of
        Inl e \<Rightarrow> Inl e
      | Inr f \<Rightarrow> (case list_entries f of Inl e \<Rightarrow> Inl e | Inr ls \<Rightarrow> Inr (True, ls)))"

section \<open>Observations and an example environment\<close>

text \<open>The bytes and the permission bits of the object under a name.\<close>

definition file_bytes :: "world \<Rightarrow> string \<Rightarrow> bytes" where
  "file_bytes w p = (case fs w p of Some (Node st d) \<Rightarrow> d | _ \<Rightarrow> [])"

definition file_perms :: "world \<Rightarrow> string \<Rightarrow> nat" where
  "file_perms w p = (case fs w p of Some (Node st d) \<Rightarrow> st_mode st AND 511 | _ \<Rightarrow> 0)"

text \<open>
  A small file system for the examples: the root directory; a regular file
  \<^verbatim>\<open>f.txt\<close> of three bytes with mode \<open>0o755\<close>; a symbolic link \<^verbatim>\<open>l\<close> to it;
  a directory \<^verbatim>\<open>d\<close> whose size is 40 bytes, as on a \<^verbatim>\<open>tmpfs\<close>, holding
  one dangling link; and a file \<^verbatim>\<open>big\<close> owned by user id \<open>8 ^ 8\<close>. The
  umask is \<open>0o022\<close>.
\<close>

definition file_stat0 :: stat_result where
  "file_stat0 = \<lparr>st_mode = 33261, st_ino = 11, st_dev = 1, st_uid = 1000, st_gid = 1000,
                  st_size = 3, st_mtime = 1700000000\<rparr>"

definition dir_stat0 :: stat_result where
  "dir_stat0 = \<lparr>st_mode = 16877, st_ino = 12, st_dev = 1, st_uid = 1000, st_gid = 1000,
                 st_size = 40, st_mtime = 1700000000\<rparr>"

definition example_world :: world where
  "example_world =
     \<lparr>fs = [''/'' \<mapsto> Node dir_stat0 [],
             ''f.txt'' \<mapsto> Node file_stat0 ''abc'',
             ''l'' \<mapsto> Symlink ''f.txt'',
             ''d'' \<mapsto> Node dir_stat0 [],
             ''d/broken'' \<mapsto> Symlink ''nowhere'',
             ''big'' \<mapsto> Node (file_stat0\<lparr>st_uid := 16777216\<rparr>) ''abc''],
      umask = 18,
      created = \<lparr>st_mode = 0, st_ino = 13, st_dev = 1, st_uid = 1000, st_gid = 1000,
                  st_size = 40, st_mtime = 1700000001\<rparr>,
      walk = (\<lambda>p. if p = ''d'' then [(''d'', [], [''broken''])] else []),
      username = ''user'',
      groupname = ''users''\<rparr>"

text \<open>
  Two archives for the examples: a header whose name field starts with a zero
  byte and goes on with \<^verbatim>\<open>name\<close>; and an archive of one entry, the regular
  file \<^verbatim>\<open>/f\<close> of three bytes.
\<close>

definition hidden_entry :: bytes where
  "hidden_entry = NUL # ''name'' @ replicate 507 NUL"

definition absolute_archive :: bytes where
  "absolute_archive =
     ''/f'' @ replicate 122 NUL @ ''3'' @ replicate 31 NUL @ ''0'' @ replicate 355 NUL
     @ ''abc'' @ replicate 509 NUL"

section \<open>Properties of the header structure\<close>

lemma offsets:
  "offset F_name = 0" "offset F_mode = 100" "offset F_uid = 108" "offset F_gid = 116"
  "offset F_size = 124" "offset F_mtime = 136" "offset F_chksum = 148" "offset F_typeflag = 156"
  "offset F_linkname = 157" "offset F_magic = 257" "offset F_version = 263" "offset F_uname = 265"
  "offset F_gname = 297" "offset F_devmajor = 329" "offset F_devminor = 337"
  "offset F_prefix = 345" "offset F_pad = 500"
  by (simp_all add: offset_def fields_order_def)

lemma sizeof_TarHeader: "sizeof_TarHeader = 512"
  by (simp add: sizeof_TarHeader_def fields_order_def)

lemma length_TarHeader: "length TarHeader = 512"
  by (simp add: TarHeader_def sizeof_TarHeader)

lemma field_in_header: "offset f + width f \<le> 512"
  by (cases f) (simp_all add: offsets)

lemma fields_disjoint:
  "f \<noteq> g \<Longrightarrow> offset f + width f \<le> offset g \<or> offset g + width g \<le> offset f"
  by (cases f; cases g; simp add: offsets)

lemma length_overlay: "off + length v \<le> length h \<Longrightarrow> length (overlay h off v) = length h"
  by (simp add: overlay_def)

lemma slice_overlay_before:
  assumes "p + n \<le> off" "off \<le> length h"
  shows "take n (drop p (overlay h off v)) = take n (drop p h)"
proof -
  have "take n (drop p (take off h)) = take n (take (off - p) (drop p h))"
    by (simp only: drop_take)
  also have "\<dots> = take n (drop p h)"
    using assms by (simp add: min_def)
  finally show ?thesis
    using assms by (simp add: overlay_def)
qed

lemma slice_overlay_after:
  "off + length v \<le> p \<Longrightarrow> off + length v \<le> length h \<Longrightarrow>
   drop p (overlay h off v) = drop p h"
  by (simp add: overlay_def)

lemma slice_overlay_at:
  "off + n \<le> length h \<Longrightarrow> length v \<le> n \<Longrightarrow>
   take n (drop off (overlay h off v)) = v @ take (n - length v) (drop (off + length v) h)"
  by (simp add: overlay_def)


lemma set_field_fits:
  "fits (f, v) \<Longrightarrow> set_field h f v = Inr (overlay h (offset f) (stored f v))"
  by (auto simp: fits_def set_field_def stored_def Let_def split: if_splits)

lemma set_field_too_long:
  "f \<noteq> F_typeflag \<Longrightarrow> \<not> fits (f, v) \<Longrightarrow> set_field h f v = Inl ValueError"
  by (simp add: fits_def set_field_def Let_def)

lemma length_stored: "fits (f, v) \<Longrightarrow> length (stored f v) \<le> width f"
  by (auto simp: fits_def stored_def)

lemma length_set_field:
  assumes "set_field h f v = Inr h'" "length h = 512"
  shows "length h' = 512"
proof -
  have "fits (f, v)"
    using assms(1) by (auto simp: fits_def set_field_def Let_def split: if_splits)
  then have "h' = overlay h (offset f) (stored f v)" "length (stored f v) \<le> width f"
    using assms(1) set_field_fits length_stored by auto
  then show ?thesis
    using field_in_header [of f] assms(2) by (simp add: length_overlay)
qed

lemma set_field_other:
  assumes "set_field h f v = Inr h'" "length h = 512" "g \<noteq> f"
  shows "field_bytes h' g = field_bytes h g"
proof -
  have "fits (f, v)"
    using assms(1) by (auto simp: fits_def set_field_def Let_def split: if_splits)
  then have h': "h' = overlay h (offset f) (stored f v)" and len: "length (stored f v) \<le> width f"
    using assms(1) set_field_fits length_stored by auto
  from fields_disjoint [OF assms(3)] show ?thesis
  proof
    assume "offset g + width g \<le> offset f"
    then show ?thesis
      unfolding h' field_bytes_def using field_in_header [of f] assms(2)
      by (intro slice_overlay_before) simp_all
  next
    assume "offset f + width f \<le> offset g"
    then have "drop (offset g) (overlay h (offset f) (stored f v)) = drop (offset g) h"
      using len field_in_header [of f] assms(2) by (intro slice_overlay_after) simp_all
    then show ?thesis
      unfolding h' field_bytes_def by simp
  qed
qed

lemma c_string_idem: "c_string (c_string v) = c_string v"
  by (simp add: c_string_def)

lemma c_string_append_NUL: "c_string (c_string v @ NUL # rest) = c_string v"
  by (simp add: c_string_def takeWhile_append1 takeWhile_tail)

lemma set_field_same:
  assumes "set_field h f v = Inr h'" "length h = 512"
  shows "get_field h' f = (if f = F_typeflag then v else c_string v)"
proof -
  have fits: "fits (f, v)"
    using assms(1) by (auto simp: fits_def set_field_def Let_def split: if_splits)
  then have h': "h' = overlay h (offset f) (stored f v)" and len: "length (stored f v) \<le> width f"
    using assms(1) set_field_fits length_stored by auto
  have fb: "field_bytes h' f = stored f v @ take (width f - length (stored f v))
              (drop (offset f + length (stored f v)) h)"
    unfolding h' field_bytes_def using field_in_header [of f] assms(2) len
    by (intro slice_overlay_at) simp_all
  show ?thesis
  proof (cases "f = F_typeflag")
    case True
    then show ?thesis
      using fb fits by (simp add: get_field_def stored_def fits_def)
  next
    case False
    show ?thesis
    proof (cases "length (c_string v) < width f")
      case True
      then show ?thesis
        using fb False by (simp add: get_field_def stored_def c_string_append_NUL)
    next
      case False
      with fits \<open>f \<noteq> F_typeflag\<close> have "length (c_string v) = width f"
        by (simp add: fits_def)
      then show ?thesis
        using fb \<open>f \<noteq> F_typeflag\<close> by (simp add: get_field_def stored_def c_string_idem)
    qed
  qed
qed

lemma get_field_cong: "field_bytes h' g = field_bytes h g \<Longrightarrow> get_field h' g = get_field h g"
  by (auto simp: get_field_def)

lemma assign_length:
  "assign h as = Inr h' \<Longrightarrow> length h = 512 \<Longrightarrow> length h' = 512"
proof (induction as arbitrary: h)
  case Nil
  then show ?case by simp
next
  case (Cons a as)
  obtain f v where a: "a = (f, v)" by (cases a)
  from Cons.prems obtain h1 where h1: "set_field h f v = Inr h1" "assign h1 as = Inr h'"
    unfolding a by (auto split: sum.splits)
  show ?case
    using Cons.IH [OF h1(2)] length_set_field [OF h1(1) Cons.prems(2)] by simp
qed

lemma assign_other:
  "assign h as = Inr h' \<Longrightarrow> length h = 512 \<Longrightarrow> g \<notin> fst ` set as \<Longrightarrow>
   field_bytes h' g = field_bytes h g"
proof (induction as arbitrary: h)
  case Nil
  then show ?case by simp
next
  case (Cons a as)
  obtain f v where a: "a = (f, v)" by (cases a)
  from Cons.prems obtain h1 where h1: "set_field h f v = Inr h1" "assign h1 as = Inr h'"
    unfolding a by (auto split: sum.splits)
  have "g \<noteq> f" "g \<notin> fst ` set as"
    using Cons.prems(3) a by auto
  then show ?case
    using Cons.IH [OF h1(2) length_set_field [OF h1(1) Cons.prems(2)]]
      set_field_other [OF h1(1) Cons.prems(2)] by simp
qed

lemma assign_get:
  "assign h as = Inr h' \<Longrightarrow> length h = 512 \<Longrightarrow> distinct (map fst as) \<Longrightarrow> (f, v) \<in> set as \<Longrightarrow>
   get_field h' f = (if f = F_typeflag then v else c_string v)"
proof (induction as arbitrary: h)
  case Nil
  then show ?case by simp
next
  case (Cons a as)
  obtain g u where a: "a = (g, u)" by (cases a)
  from Cons.prems obtain h1 where h1: "set_field h g u = Inr h1" "assign h1 as = Inr h'"
    unfolding a by (auto split: sum.splits)
  note len1 = length_set_field [OF h1(1) Cons.prems(2)]
  show ?case
  proof (cases "(f, v) = (g, u)")
    case True
    then have "f \<notin> fst ` set as"
      using Cons.prems(3) a by auto
    then have "get_field h' f = get_field h1 f"
      using assign_other [OF h1(2) len1] by (intro get_field_cong) simp
    then show ?thesis
      using set_field_same [OF h1(1) Cons.prems(2)] True by simp
  next
    case False
    then have "(f, v) \<in> set as"
      using Cons.prems(4) a by auto
    then show ?thesis
      using Cons.IH [OF h1(2) len1] Cons.prems(3) by simp
  qed
qed

lemma assign_fits:
  "list_all fits as \<Longrightarrow> \<exists>h'. assign h as = Inr h'"
proof (induction as arbitrary: h)
  case Nil
  then show ?case by simp
next
  case (Cons a as)
  obtain f v where a: "a = (f, v)" by (cases a)
  then show ?case
    using Cons by (simp add: set_field_fits)
qed

lemma assign_too_long:
  "list_all fits pre \<Longrightarrow> f \<noteq> F_typeflag \<Longrightarrow> \<not> fits (f, v) \<Longrightarrow>
   assign h (pre @ (f, v) # post) = Inl ValueError"
proof (induction pre arbitrary: h)
  case Nil
  then show ?case by (simp add: set_field_too_long)
next
  case (Cons a pre)
  obtain g u where a: "a = (g, u)" by (cases a)
  then show ?case
    using Cons by (simp add: set_field_fits)
qed

section \<open>Properties of octal text\<close>

lemma oct_digit_cases:
  assumes "d < 8"
  shows "is_oct_digit (oct_digit d) \<and> of_char (oct_digit d) - 48 = d \<and> oct_digit d \<noteq> NUL
       \<and> \<not> is_space (oct_digit d) \<and> oct_digit d \<noteq> CHR ''-'' \<and> oct_digit d \<noteq> CHR ''+''
       \<and> oct_digit d \<noteq> CHR ''o'' \<and> oct_digit d \<noteq> CHR ''O'' \<and> oct_digit d \<noteq> CHR ''_''"
proof -
  from assms consider "d = 0" | "d = 1" | "d = 2" | "d = 3" | "d = 4" | "d = 5" | "d = 6" | "d = 7"
    by linarith
  then show ?thesis
    by cases (simp_all add: oct_digit_def is_oct_digit_def is_space_def)
qed

lemma plain_oct_digit: "d < 8 \<Longrightarrow> plain (oct_digit d)"
  using oct_digit_cases [of d] by (simp add: plain_def)

lemma plain_zero: "plain (CHR ''0'')"
  using plain_oct_digit [of 0] by (simp add: oct_digit_def)

lemma plain_oct_digits: "list_all plain (oct_digits n)"
  by (induction n rule: oct_digits.induct)
    (subst oct_digits.simps, simp add: plain_oct_digit)

lemma oct_digits_nonempty: "oct_digits n \<noteq> []"
  by (subst oct_digits.simps) simp

lemma length_oct_digits_le: "n < 8 ^ k \<Longrightarrow> 0 < k \<Longrightarrow> length (oct_digits n) \<le> k"
proof (induction n arbitrary: k rule: oct_digits.induct)
  case (1 n)
  show ?case
  proof (cases "n < 8")
    case True
    then show ?thesis
      using "1.prems" by (subst oct_digits.simps) simp
  next
    case False
    then have "1 < k"
      using "1.prems" by (cases k; cases "k - 1") auto
    then obtain j where k: "k = Suc j" "0 < j"
      by (cases k) auto
    have "n div 8 < 8 ^ j"
      using "1.prems"(1) k by (simp add: less_mult_imp_div_less mult.commute)
    then have "length (oct_digits (n div 8)) \<le> j"
      using "1.IH" [OF False] k by simp
    then show ?thesis
      using False k by (subst oct_digits.simps) simp
  qed
qed

lemma length_oct_digits_gt: "8 ^ k \<le> n \<Longrightarrow> k < length (oct_digits n)"
proof (induction n arbitrary: k rule: oct_digits.induct)
  case (1 n)
  show ?case
  proof (cases k)
    case 0
    then show ?thesis
      using oct_digits_nonempty [of n] by simp
  next
    case (Suc j)
    then have ge: "8 \<le> n"
      using "1.prems" by (metis One_nat_def le_trans one_le_numeral one_le_power power_one_right
          power_increasing Suc_leI zero_less_Suc)
    have "8 ^ j \<le> n div 8"
      using "1.prems" Suc by (simp add: less_eq_div_iff_mult_less_eq mult.commute)
    then have "j < length (oct_digits (n div 8))"
      using "1.IH" ge by simp
    then show ?thesis
      using ge Suc by (subst oct_digits.simps) simp
  qed
qed

lemma format_o_nat: "format_o w (int n) = replicate (w - length (oct_digits n)) (CHR ''0'') @ oct_digits n"
  by (simp add: format_o_def Let_def)

lemma plain_format_o: "list_all plain (format_o w (int n))"
  using plain_oct_digits [of n] plain_zero by (auto simp: format_o_nat list_all_iff)

lemma length_format_o: "length (format_o w (int n)) = max w (length (oct_digits n))"
  by (simp add: format_o_nat)

lemma c_string_plain: "list_all plain v \<Longrightarrow> c_string v = v"
  by (simp add: c_string_def list_all_iff plain_def)

lemma strip_plain:
  assumes "list_all plain v"
  shows "strip v = v"
proof -
  have a: "dropWhile is_space u = u" if "list_all plain u" for u
    using that by (cases u) (simp_all add: plain_def)
  have "list_all plain (rev v)"
    using assms by (simp add: list_all_iff)
  then show ?thesis
    using a [OF assms] a [of "rev v"] by (simp add: strip_def)
qed

lemma oct_value_zeros:
  "oct_value us seen 0 (replicate k (CHR ''0'') @ rest)
     = (if k = 0 then oct_value us seen 0 rest else oct_value True True 0 rest)"
proof (induction k arbitrary: us seen)
  case 0
  then show ?case by simp
next
  case (Suc k)
  have "is_oct_digit (CHR ''0'')"
    using plain_zero by (simp add: plain_def)
  then show ?case
    using Suc by simp
qed

lemma oct_value_digits:
  "oct_value us seen acc (oct_digits n @ rest)
     = oct_value True True (acc * 8 ^ length (oct_digits n) + n) rest"
proof (induction n arbitrary: us seen acc rest rule: oct_digits.induct)
  case (1 n)
  show ?case
  proof (cases "n < 8")
    case True
    then show ?thesis
      using oct_digit_cases [of n] by (subst (1 2) oct_digits.simps) simp
  next
    case False
    have d: "is_oct_digit (oct_digit (n mod 8))" "of_char (oct_digit (n mod 8)) - 48 = n mod 8"
      using oct_digit_cases [of "n mod 8"] by simp_all
    have "oct_value us seen acc (oct_digits (n div 8) @ oct_digit (n mod 8) # rest)
          = oct_value True True (acc * 8 ^ length (oct_digits (n div 8)) + n div 8)
              (oct_digit (n mod 8) # rest)"
      using "1.IH" [OF False] by simp
    also have "\<dots> = oct_value True True
        ((acc * 8 ^ length (oct_digits (n div 8)) + n div 8) * 8 + n mod 8) rest"
      using d by simp
    also have "(acc * 8 ^ length (oct_digits (n div 8)) + n div 8) * 8 + n mod 8
               = acc * 8 ^ Suc (length (oct_digits (n div 8))) + n"
      by (simp add: algebra_simps)
    finally show ?thesis
      using False by (subst (1 2) oct_digits.simps) simp
  qed
qed

lemma int_oct_format_o: "int_oct (format_o w (int n)) = Inr (int n)"
proof -
  let ?s = "format_o w (int n)"
  have p: "list_all plain ?s"
    by (rule plain_format_o)
  have ne: "?s \<noteq> []"
    using oct_digits_nonempty by (simp add: format_o_nat)
  then obtain c cs where s: "?s = c # cs"
    by (cases ?s) auto
  have c: "plain c" "list_all plain cs"
    using p s by simp_all
  have sign: "take 1 ?s \<noteq> ''-''" "take 1 ?s \<noteq> ''+''"
    using c s by (auto simp: plain_def)
  have pre: "\<not> has_oct_prefix ?s"
    using c s by (cases cs) (auto simp: has_oct_prefix_def plain_def)
  have v: "oct_value False False 0 ?s = Some n"
  proof -
    have "oct_value False False 0 ?s = oct_value False False 0 (replicate (w - length (oct_digits n)) (CHR ''0'') @ oct_digits n @ [])"
      by (simp add: format_o_nat)
    also have "\<dots> = oct_value True True n []"
      by (simp only: oct_value_zeros oct_value_digits) simp
    finally show ?thesis
      by simp
  qed
  show ?thesis
    using sign pre v by (simp add: int_oct_def strip_plain [OF p] Let_def)
qed

section \<open>Properties of the header of an entry\<close>

lemma NUL_notin_format_o: "NUL \<notin> set (format_o w n)"
proof -
  have "NUL \<notin> set (oct_digits k)" for k
    using plain_oct_digits [of k] by (auto simp: list_all_iff plain_def)
  then show ?thesis
    by (auto simp: format_o_def Let_def)
qed

lemma c_string_format_o: "c_string (format_o w n) = format_o w n"
  using NUL_notin_format_o [of w n] by (auto simp: c_string_def)

lemma fits_format_o:
  "f \<noteq> F_typeflag \<Longrightarrow> fits (f, format_o w n) = (length (format_o w n) \<le> width f)"
  by (simp add: fits_def c_string_format_o)

lemma length_c_string: "length (c_string v) \<le> length v"
  by (simp add: c_string_def length_takeWhile_le)

lemma fits_take: "f \<noteq> F_typeflag \<Longrightarrow> n \<le> width f \<Longrightarrow> fits (f, take n v)"
  using length_c_string [of "take n v"] by (simp add: fits_def)

lemma fits_mode: "fits (F_mode, format_o 7 (int (m AND 511)))"
proof -
  have "m AND 511 = take_bit 9 m"
    by (simp add: take_bit_eq_mask mask_eq_exp_minus_1)
  then have "m AND 511 < 8 ^ 3"
    using take_bit_nat_less_exp [of 9 m] by simp
  then have "length (oct_digits (m AND 511)) \<le> 3"
    by (rule length_oct_digits_le) simp
  then show ?thesis
    by (simp add: fits_format_o length_format_o)
qed

lemma fits_literal:
  "fits (F_chksum, replicate 8 (CHR '' ''))" "fits (F_magic, ''ustar'' @ [NUL])"
  "fits (F_version, ''00'')" "fits (F_devmajor, ''0000000'' @ [NUL])"
  "fits (F_devminor, ''0000000'' @ [NUL])" "fits (F_prefix, [])" "fits (F_pad, [])"
  by (simp_all add: fits_def c_string_def)


lemma checksum_bound: "get_header_checksum h \<le> 255 * length h"
proof -
  have "sum_list (map of_char h) \<le> (255 :: nat) * length h"
  proof (induction h)
    case Nil
    then show ?case by simp
  next
    case (Cons c h)
    have "(of_char c :: nat) < 256"
      by (rule nat_of_char_less_256)
    then have "(of_char c :: nat) \<le> 255"
      by linarith
    then show ?case
      using Cons by simp
  qed
  then show ?thesis
    by (simp add: get_header_checksum_def)
qed

lemma fits_chksum:
  assumes "length h = 512"
  shows "fits (F_chksum, format_o 6 (int (get_header_checksum h)))"
proof -
  have "get_header_checksum h < 8 ^ 6"
    using checksum_bound [of h] assms by simp
  then have "length (oct_digits (get_header_checksum h)) \<le> 6"
    by (rule length_oct_digits_le) simp
  then show ?thesis
    by (simp add: fits_format_o length_format_o)
qed

lemma fits_name: "fits (F_name, take 99 filename)" "fits (F_linkname, take 99 linkname)"
  "fits (F_uname, take 32 u)"
  by (simp_all add: fits_take)

text \<open>The header fails when a number's text is too long for its field.\<close>

lemma header_assignments_too_long:
  assumes "\<not> fits (F_uid, format_o 7 (int (st_uid st)))
         \<or> \<not> fits (F_gid, format_o 7 (int (st_gid st)))
         \<or> \<not> fits (F_size, format_o 11 (int (if typeflag \<noteq> TAR_TYPE_DIR then st_size st else 0)))
         \<or> \<not> fits (F_mtime, format_o 0 (st_mtime st))"
  shows "assign h (header_assignments w filename st typeflag linkname) = Inl ValueError"
proof -
  let ?name = "(F_name, take 99 filename)"
  let ?mode = "(F_mode, format_o 7 (int (st_mode st AND 511)))"
  let ?uid = "(F_uid, format_o 7 (int (st_uid st)))"
  let ?gid = "(F_gid, format_o 7 (int (st_gid st)))"
  let ?size = "(F_size, format_o 11 (int (if typeflag \<noteq> TAR_TYPE_DIR then st_size st else 0)))"
  let ?mtime = "(F_mtime, format_o 0 (st_mtime st))"
  consider (uid) "\<not> fits ?uid"
    | (gid) "fits ?uid" "\<not> fits ?gid"
    | (size) "fits ?uid" "fits ?gid" "\<not> fits ?size"
    | (mtime) "fits ?uid" "fits ?gid" "fits ?size" "\<not> fits ?mtime"
    using assms by blast
  then show ?thesis
  proof cases
    case uid
    then show ?thesis
      using assign_too_long [of "[?name, ?mode]" F_uid _ h] fits_name fits_mode
      by (simp add: header_assignments_def)
  next
    case gid
    then show ?thesis
      using assign_too_long [of "[?name, ?mode, ?uid]" F_gid _ h] fits_name fits_mode
      by (simp add: header_assignments_def)
  next
    case size
    then show ?thesis
      using assign_too_long [of "[?name, ?mode, ?uid, ?gid]" F_size _ h] fits_name fits_mode
      by (simp add: header_assignments_def)
  next
    case mtime
    then show ?thesis
      using assign_too_long [of "[?name, ?mode, ?uid, ?gid, ?size]" F_mtime _ h] fits_name fits_mode
      by (simp add: header_assignments_def)
  qed
qed

lemma distinct_header_fields:
  "map fst (header_assignments w filename st typeflag linkname) = fields_order"
  by (simp add: header_assignments_def fields_order_def)

lemma distinct_fields_order: "distinct fields_order"
  by (simp add: fields_order_def)

text \<open>The header is built when every value fits, and then holds what was assigned.\<close>

lemma tar_header_of_fits:
  assumes "list_all fits (header_assignments w filename st typeflag linkname)"
  shows "\<exists>h. tar_header_of w filename st typeflag linkname = Inr h \<and> length h = 512
           \<and> get_field h F_name = c_string (take 99 filename)
           \<and> get_field h F_size
               = format_o 11 (int (if typeflag \<noteq> TAR_TYPE_DIR then st_size st else 0))
           \<and> get_field h F_typeflag = typeflag
           \<and> get_field h F_linkname = c_string (take 99 linkname)
           \<and> get_field h F_mode = format_o 7 (int (st_mode st AND 511))"
proof -
  let ?as = "header_assignments w filename st typeflag linkname"
  from assign_fits [OF assms] obtain h0 where h0: "assign TarHeader ?as = Inr h0"
    by blast
  have len0: "length h0 = 512"
    using assign_length [OF h0 length_TarHeader] .
  have d: "distinct (map fst ?as)"
    by (simp add: distinct_header_fields distinct_fields_order)
  have get0: "get_field h0 f = (if f = F_typeflag then v else c_string v)" if "(f, v) \<in> set ?as" for f v
    using assign_get [OF h0 length_TarHeader d that] .
  let ?c = "format_o 6 (int (get_header_checksum h0))"
  have "fits (F_chksum, ?c)"
    using fits_chksum [OF len0] .
  then obtain h where h: "set_field h0 F_chksum ?c = Inr h"
    by (simp add: set_field_fits)
  have len: "length h = 512"
    using length_set_field [OF h len0] .
  have same: "get_field h f = get_field h0 f" if "f \<noteq> F_chksum" for f
    using set_field_other [OF h len0 that] by (rule get_field_cong)
  have "get_field h F_name = c_string (take 99 filename)"
    using same [of F_name] get0 [of F_name "take 99 filename"] by (simp add: header_assignments_def)
  moreover have "get_field h F_size
      = format_o 11 (int (if typeflag \<noteq> TAR_TYPE_DIR then st_size st else 0))"
    using same [of F_size] get0 [of F_size "format_o 11 (int (if typeflag \<noteq> TAR_TYPE_DIR then st_size st else 0))"]
    by (simp add: header_assignments_def c_string_format_o)
  moreover have "get_field h F_typeflag = typeflag"
    using same [of F_typeflag] get0 [of F_typeflag typeflag] by (simp add: header_assignments_def)
  moreover have "get_field h F_linkname = c_string (take 99 linkname)"
    using same [of F_linkname] get0 [of F_linkname "take 99 linkname"]
    by (simp add: header_assignments_def)
  moreover have "get_field h F_mode = format_o 7 (int (st_mode st AND 511))"
    using same [of F_mode] get0 [of F_mode "format_o 7 (int (st_mode st AND 511))"]
    by (simp add: header_assignments_def c_string_format_o)
  ultimately show ?thesis
    using h0 h len by (simp add: tar_header_of_def)
qed

section \<open>Properties of the writer\<close>

lemma follow_numeral:
  "follow f (numeral k) p = (case f p of Some (Symlink t) \<Rightarrow> follow f (pred_numeral k) t | _ \<Rightarrow> Some p)"
  by (simp add: numeral_eq_Suc)

lemmas fs_defs = os_stat_def resolve_def follow_numeral os_path_exists_def os_path_isfile_def
  os_path_isdir_def os_path_getsize_def os_path_realpath_def os_path_join_def os_path_dirname_def
  parent_ok_def open_rb_def open_write_def write_bytes_def os_mkdir_def
  S_ISREG_def S_ISLNK_def S_ISCHR_def S_ISBLK_def S_ISDIR_def S_ISFIFO_def S_IFMT_def
  S_IFIFO_def S_IFCHR_def S_IFDIR_def S_IFBLK_def S_IFREG_def S_IFLNK_def
  file_bytes_def file_perms_def

lemmas tar_types = TAR_TYPE_REGULAR_FILE_def TAR_TYPE_REGULAR_FILE_ALIAS_def TAR_TYPE_HARDLINK_def
  TAR_TYPE_SYMLINK_def TAR_TYPE_CHAR_def TAR_TYPE_BLOCK_def TAR_TYPE_DIR_def TAR_TYPE_FIFO_def

lemma add_missing: "\<not> os_path_exists w filename \<Longrightarrow> add w archive filename = Inr (False, w)"
  by (simp add: add_def)

lemma add_unfold:
  assumes "os_stat w filename = Inr st" "file_type w filename st = Inr (tf, ln)"
    "open_write w (\<not> os_path_exists w archive) archive = Inr (w1, out)"
  shows "add w archive filename =
     (case tar_header_of w filename st tf ln of
        Inl e \<Rightarrow> Inl e
      | Inr h \<Rightarrow>
          (case os_path_getsize w1 filename of
             Inl e \<Rightarrow> Inl e
           | Inr sz \<Rightarrow>
               (case entry_data w1 filename tf sz of
                  Inl e \<Rightarrow> Inl e
                | Inr data \<Rightarrow> Inr (True, write_bytes w1 out (h @ data @ entry_padding sz)))))"
proof -
  have "os_path_exists w filename"
    using assms(1) by (simp add: os_path_exists_def)
  then show ?thesis
    using assms by (simp add: add_def)
qed

lemma fits_number:
  assumes "f \<noteq> F_typeflag" "n < 8 ^ width f" "k \<le> width f" "0 < width f"
  shows "fits (f, format_o k (int n))"
proof -
  have "length (oct_digits n) \<le> width f"
    using assms(2,4) by (rule length_oct_digits_le)
  then show ?thesis
    using assms(1,3) by (simp add: fits_format_o length_format_o)
qed

lemma fits_header_assignments:
  assumes "length typeflag = 1" "st_uid st < 8 ^ 8" "st_gid st < 8 ^ 8"
    "(if typeflag \<noteq> TAR_TYPE_DIR then st_size st else 0) < 8 ^ 12"
    "0 \<le> st_mtime st" "st_mtime st < 8 ^ 12" "length (c_string (groupname w)) \<le> 32"
  shows "list_all fits (header_assignments w filename st typeflag linkname)"
proof -
  have "fits (F_mtime, format_o 0 (int (nat (st_mtime st))))"
    using assms(5,6) by (intro fits_number) (simp_all add: nat_less_iff)
  then have mtime: "fits (F_mtime, format_o 0 (st_mtime st))"
    using assms(5) by simp
  have "fits (F_uid, format_o 7 (int (st_uid st)))" "fits (F_gid, format_o 7 (int (st_gid st)))"
    "fits (F_size, format_o 11 (int (if typeflag \<noteq> TAR_TYPE_DIR then st_size st else 0)))"
    using assms(2,3,4) by (simp_all add: fits_number)
  moreover have "fits (F_typeflag, typeflag)" "fits (F_gname, groupname w)"
    using assms(1,7) by (simp_all add: fits_def)
  ultimately show ?thesis
    using mtime fits_name fits_mode fits_literal by (simp add: header_assignments_def)
qed

lemma add_too_long:
  assumes "os_stat w filename = Inr st" "file_type w filename st = Inr (tf, ln)"
    "open_write w (\<not> os_path_exists w archive) archive = Inr (w1, out)"
    "\<not> fits (F_uid, format_o 7 (int (st_uid st)))
         \<or> \<not> fits (F_gid, format_o 7 (int (st_gid st)))
         \<or> \<not> fits (F_size, format_o 11 (int (if tf \<noteq> TAR_TYPE_DIR then st_size st else 0)))
         \<or> \<not> fits (F_mtime, format_o 0 (st_mtime st))"
  shows "add w archive filename = Inl ValueError"
  using header_assignments_too_long [OF assms(4)]
  by (simp add: add_unfold [OF assms(1-3)] tar_header_of_def)

text \<open>The example environment.\<close>

lemma example_stat:
  "os_stat example_world ''f.txt'' = Inr file_stat0"
  "os_stat example_world ''l'' = Inr file_stat0"
  "os_stat example_world ''d'' = Inr dir_stat0"
  "os_stat example_world ''big'' = Inr (file_stat0\<lparr>st_uid := 16777216\<rparr>)"
  "os_stat example_world ''d/broken'' = Inl OSError"
  by (simp_all add: os_stat_def resolve_def follow_numeral example_world_def)

lemma example_types:
  "file_type w p file_stat0 = Inr (TAR_TYPE_REGULAR_FILE, [])"
  "file_type w p (file_stat0\<lparr>st_uid := 16777216\<rparr>) = Inr (TAR_TYPE_REGULAR_FILE, [])"
  "file_type w p dir_stat0 = Inr (TAR_TYPE_DIR, [])"
  by (simp_all add: file_type_def file_stat0_def dir_stat0_def S_ISREG_def S_ISLNK_def S_ISCHR_def
      S_ISBLK_def S_ISDIR_def S_IFMT_def S_IFREG_def S_IFLNK_def S_IFCHR_def S_IFBLK_def S_IFDIR_def)

section \<open>Properties of the codec\<close>

subsection \<open>The chunked read\<close>

text \<open>
  The read sizes of a copy of \<open>d\<close> bytes in chunks of \<open>c\<close>: full chunks, the
  remainder if there is one, and the read of nothing that ends the loop.
\<close>

abbreviation (input) reads_of :: "int \<Rightarrow> int \<Rightarrow> int list" where
  "reads_of c d \<equiv>
     replicate (nat (d div c)) c @ (if d mod c = 0 then [] else [d mod c]) @ [0]"

lemma reads_of_zero: "0 < c \<Longrightarrow> reads_of c 0 = [0]"
  by simp

lemma reads_of_small: "0 < d \<Longrightarrow> d < c \<Longrightarrow> reads_of c d = [d, 0]"
  by simp

lemma reads_of_large:
  assumes "0 < c" "c \<le> d"
  shows "reads_of c d = c # reads_of c (d - c)"
proof -
  have "d div c = (d - c) div c + 1"
    using assms by (metis div_add_self2 diff_add_cancel less_irrefl)
  moreover have "0 \<le> (d - c) div c"
    using assms by (simp add: pos_imp_zdiv_nonneg_iff)
  ultimately have "nat (d div c) = Suc (nat ((d - c) div c))"
    by simp
  moreover have "d mod c = (d - c) mod c"
    using assms by (metis mod_add_self2 diff_add_cancel)
  ultimately show ?thesis
    by simp
qed

lemma read_chunks_trace:
  assumes "0 < c" "0 \<le> rb" "rb \<le> tot" "nat (tot - rb) \<le> length f"
  shows "concat (fst (read_chunks f tot c rb)) = take (nat (tot - rb)) f
       \<and> snd (snd (read_chunks f tot c rb)) = drop (nat (tot - rb)) f
       \<and> map (\<lambda>ch. int (length ch)) (fst (read_chunks f tot c rb))
           = butlast (fst (snd (read_chunks f tot c rb)))
       \<and> fst (snd (read_chunks f tot c rb)) = reads_of c (tot - rb)"
  using assms
proof (induction f tot c rb rule: read_chunks.induct)
  case (1 f tot c rb)
  let ?n = "read_size tot c rb"
  have n: "?n = min c (tot - rb)"
    using "1.prems" by (simp add: read_size_def)
  show ?case
  proof (cases "tot - rb = 0")
    case True
    then have "fst (file_read f ?n) = []" "snd (file_read f ?n) = f"
      using n "1.prems" by (simp_all add: file_read_def)
    then show ?thesis
      using True n "1.prems" by (simp add: read_chunks_stop reads_of_zero)
  next
    case False
    then have pos: "0 < ?n" "?n \<le> tot - rb"
      using n "1.prems" by simp_all
    have chunk: "fst (file_read f ?n) = take (nat ?n) f" "snd (file_read f ?n) = drop (nat ?n) f"
      using pos by (simp_all add: file_read_def)
    have len: "length (take (nat ?n) f) = nat ?n"
      using pos "1.prems" by simp
    then have ne: "fst (file_read f ?n) \<noteq> []"
      using pos chunk by (metis length_0_conv nat_0_iff not_less)
    let ?rb' = "rb + int (length (fst (file_read f ?n)))"
    have rb': "?rb' = rb + ?n"
      using chunk len pos by simp
    have prems': "0 < c" "0 \<le> ?rb'" "?rb' \<le> tot" "nat (tot - ?rb') \<le> length (snd (file_read f ?n))"
      using "1.prems" pos rb' chunk by auto
    define R where "R = read_chunks (drop (nat ?n) f) tot c (rb + ?n)"
    have IH: "concat (fst R) = take (nat (tot - (rb + ?n))) (drop (nat ?n) f)"
      "snd (snd R) = drop (nat (tot - (rb + ?n))) (drop (nat ?n) f)"
      "map (\<lambda>ch. int (length ch)) (fst R) = butlast (fst (snd R))"
      "fst (snd R) = reads_of c (tot - (rb + ?n))"
      using "1.IH" [OF refl refl refl ne prems', unfolded rb', unfolded chunk(2), folded R_def]
      by simp_all
    have step: "read_chunks f tot c rb = (take (nat ?n) f # fst R, ?n # fst (snd R), snd (snd R))"
      using read_chunks_step [OF ne, unfolded rb', unfolded chunk, folded R_def]
      by (simp add: case_prod_unfold)
    have split: "nat (tot - rb) = nat ?n + nat (tot - (rb + ?n))"
      using pos by simp
    have reads: "reads_of c (tot - rb) = ?n # reads_of c (tot - (rb + ?n))"
    proof (cases "c \<le> tot - rb")
      case True
      then show ?thesis
        using n reads_of_large [OF \<open>0 < c\<close> True] by (simp add: algebra_simps)
    next
      case False
      then show ?thesis
        using n False pos reads_of_small [of "tot - rb" c] reads_of_zero [OF \<open>0 < c\<close>]
        by (simp add: algebra_simps)
    qed
    have nonempty: "fst (snd R) \<noteq> []"
      unfolding IH by simp
    have "take (nat ?n) f @ take (nat (tot - (rb + ?n))) (drop (nat ?n) f) = take (nat (tot - rb)) f"
      unfolding split by (simp add: take_add)
    moreover have "drop (nat (tot - (rb + ?n))) (drop (nat ?n) f) = drop (nat (tot - rb)) f"
      unfolding split by (simp add: add.commute)
    ultimately show ?thesis
      unfolding step using IH reads nonempty len pos by simp
  qed
qed


text \<open>
  C7. When the source holds at least \<open>file_size\<close> bytes, the chunked copy asks
  for full chunks of \<open>chunk_size\<close> bytes, then for the remaining byte count if
  it is not zero, then for nothing; each yielded chunk has the size that was
  asked for, so none is longer than \<open>chunk_size\<close>; the chunks together are the
  first \<open>file_size\<close> bytes of the source, and the source is left exactly
  \<open>file_size\<close> bytes further on: no byte past them is read.
\<close>

theorem read_file_in_chunks_exact:
  assumes "0 < chunk_size" and "0 \<le> file_size" and "nat file_size \<le> length source"
    and "read_file_in_chunks source file_size chunk_size = (chunks, reads, left)"
  shows "concat chunks = take (nat file_size) source
       \<and> int (length (concat chunks)) = file_size
       \<and> left = drop (nat file_size) source
       \<and> map (\<lambda>ch. int (length ch)) chunks = butlast reads
       \<and> reads = replicate (nat (file_size div chunk_size)) chunk_size
                  @ (if file_size mod chunk_size = 0 then [] else [file_size mod chunk_size])
                  @ [0]
       \<and> list_all (\<lambda>n. 0 \<le> n \<and> n \<le> chunk_size) reads
       \<and> sum_list reads = file_size"
proof -
  have t: "concat chunks = take (nat file_size) source"
    "left = drop (nat file_size) source"
    "map (\<lambda>ch. int (length ch)) chunks = butlast reads"
    "reads = reads_of chunk_size file_size"
    using read_chunks_trace [of chunk_size 0 file_size source] assms
    by (simp_all add: read_file_in_chunks_def)
  have len: "int (length (concat chunks)) = file_size"
    unfolding t using assms by simp
  have "0 \<le> file_size mod chunk_size" "file_size mod chunk_size \<le> chunk_size"
    using assms(1) by (simp_all add: less_imp_le)
  then have bound: "list_all (\<lambda>n. 0 \<le> n \<and> n \<le> chunk_size) reads"
    unfolding t using assms(1) by (simp add: list_all_iff)
  have "0 \<le> file_size div chunk_size"
    using assms by (simp add: pos_imp_zdiv_nonneg_iff)
  then have "sum_list reads = file_size div chunk_size * chunk_size + file_size mod chunk_size"
    unfolding t by (cases "file_size mod chunk_size = 0") (simp_all add: sum_list_replicate)
  then have total: "sum_list reads = file_size"
    by (simp only: div_mult_mod_eq)
  from t len bound total show ?thesis
    by simp
qed

text \<open>Ten bytes, seven of them copied in chunks of three.\<close>

theorem read_file_in_chunks_exact_witness:
  "read_file_in_chunks ''abcdefghij'' 7 3 = ([''abc'', ''def'', ''g''], [3, 3, 1, 0], ''hij'')
   \<and> concat [''abc'', ''def'', ''g''] = take (nat 7) ''abcdefghij''
   \<and> ''hij'' = drop (nat 7) ''abcdefghij''
   \<and> sum_list [3, 3, 1, 0] = (7 :: int)"
proof -
  have run: "read_file_in_chunks ''abcdefghij'' 7 3 = ([''abc'', ''def'', ''g''], [3, 3, 1, 0], ''hij'')"
    by code_simp
  from read_file_in_chunks_exact [OF _ _ _ run] show ?thesis
    using run by simp
qed

subsection \<open>The checksum\<close>

text \<open>
  C3. The checksum of a header is the sum of the byte values of the whole
  record; a new record is 512 zero bytes and its checksum is 0; with the
  checksum field set to eight spaces and everything else zero it is 256.
\<close>

theorem get_header_checksum_sum:
  "get_header_checksum h = (\<Sum>i<length h. of_char (h ! i))
   \<and> length TarHeader = 512
   \<and> get_header_checksum TarHeader = 0
   \<and> (\<exists>h'. set_field TarHeader F_chksum (replicate 8 (CHR '' '')) = Inr h'
          \<and> length h' = 512
          \<and> h' = replicate 148 NUL @ replicate 8 (CHR '' '') @ replicate 356 NUL
          \<and> get_header_checksum h' = 256)"
proof -
  have "sum_list (map of_char h) = (\<Sum>i<length h. (of_char (h ! i) :: nat))"
    by (simp add: sum_list_sum_nth atLeast0LessThan)
  then have a: "get_header_checksum h = (\<Sum>i<length h. of_char (h ! i))"
    by (simp add: get_header_checksum_def)
  have b: "length TarHeader = 512"
    by (simp add: TarHeader_def sizeof_TarHeader_def fields_order_def)
  have c: "get_header_checksum TarHeader = 0"
    by (simp add: get_header_checksum_def TarHeader_def)
  have d: "set_field TarHeader F_chksum (replicate 8 (CHR '' ''))
           = Inr (replicate 148 NUL @ replicate 8 (CHR '' '') @ replicate 356 NUL)"
    by (simp add: set_field_def c_string_def overlay_def offset_def fields_order_def
        TarHeader_def sizeof_TarHeader_def replicate_add [symmetric])
  have e: "get_header_checksum (replicate 148 NUL @ replicate 8 (CHR '' '') @ replicate 356 NUL) = 256"
    by (simp add: get_header_checksum_def sum_list_replicate)
  from a b c d e show ?thesis
    by simp
qed

lemma field_bytes_append: "length h = 512 \<Longrightarrow> field_bytes (h @ rest) f = field_bytes h f"
  using field_in_header [of f] by (simp add: field_bytes_def)

lemma get_field_append: "length h = 512 \<Longrightarrow> get_field (h @ rest) f = get_field h f"
  by (rule get_field_cong) (rule field_bytes_append)

lemma add_ok:
  assumes "os_stat w filename = Inr st" "file_type w filename st = Inr (tf, ln)"
    "open_write w (\<not> os_path_exists w archive) archive = Inr (w1, out)"
    "list_all fits (header_assignments w filename st tf ln)"
    "os_path_getsize w1 filename = Inr sz" "entry_data w1 filename tf sz = Inr data"
  shows "\<exists>h. add w archive filename = Inr (True, write_bytes w1 out (h @ data @ entry_padding sz))
           \<and> length h = 512
           \<and> get_field h F_name = c_string (take 99 filename)
           \<and> get_field h F_size = format_o 11 (int (if tf \<noteq> TAR_TYPE_DIR then st_size st else 0))
           \<and> get_field h F_typeflag = tf
           \<and> get_field h F_linkname = c_string (take 99 ln)
           \<and> get_field h F_mode = format_o 7 (int (st_mode st AND 511))"
proof -
  from tar_header_of_fits [OF assms(4)] obtain h where
    h: "tar_header_of w filename st tf ln = Inr h" "length h = 512"
      "get_field h F_name = c_string (take 99 filename)"
      "get_field h F_size = format_o 11 (int (if tf \<noteq> TAR_TYPE_DIR then st_size st else 0))"
      "get_field h F_typeflag = tf"
      "get_field h F_linkname = c_string (take 99 ln)"
      "get_field h F_mode = format_o 7 (int (st_mode st AND 511))"
    by blast
  have "add w archive filename = Inr (True, write_bytes w1 out (h @ data @ entry_padding sz))"
    using h(1) assms(5,6) by (simp add: add_unfold [OF assms(1-3)])
  with h show ?thesis
    by blast
qed

lemma example_fits:
  assumes "groupname w = ''users''"
  shows "list_all fits (header_assignments w p file_stat0 TAR_TYPE_REGULAR_FILE ln)"
    and "list_all fits (header_assignments w p dir_stat0 TAR_TYPE_DIR ln)"
  by (rule fits_header_assignments;
      simp add: assms file_stat0_def dir_stat0_def tar_types c_string_def)+

lemma example_groupname: "groupname example_world = ''users''"
  by (simp add: example_world_def)

lemma example_open_archive:
  "open_write example_world b ''a.tar''
     = Inr (example_world\<lparr>fs := (fs example_world)(''a.tar'' \<mapsto>
              Node ((created example_world)\<lparr>st_mode := 33188, st_size := 0\<rparr>) [])\<rparr>, ''a.tar'')"
  by (simp add: open_write_def resolve_def follow_numeral example_world_def parent_ok_def
      os_path_dirname_def S_IFREG_def)


lemma example_add_directory:
  "\<exists>h w'. add example_world ''a.tar'' ''d'' = Inr (True, w')
         \<and> file_bytes w' ''a.tar'' = h @ replicate 472 NUL
         \<and> length h = 512 \<and> get_field h F_size = format_o 11 (int 0)"
proof -
  let ?w1 = "example_world\<lparr>fs := (fs example_world)(''a.tar'' \<mapsto>
              Node ((created example_world)\<lparr>st_mode := 33188, st_size := 0\<rparr>) [])\<rparr>"
  have opened: "open_write example_world (\<not> os_path_exists example_world ''a.tar'') ''a.tar''
                 = Inr (?w1, ''a.tar'')"
    by (rule example_open_archive)
  have sz: "os_path_getsize ?w1 ''d'' = Inr 40"
    by (simp add: os_path_getsize_def os_stat_def resolve_def follow_numeral example_world_def
        dir_stat0_def)
  have data: "entry_data ?w1 ''d'' TAR_TYPE_DIR 40 = Inr []"
    by (simp add: entry_data_def tar_types)
  have pad: "entry_padding 40 = replicate 472 NUL"
    by (simp add: entry_padding_def padding_size_def)
  from add_ok [OF example_stat(3) example_types(3) opened example_fits(2) [OF example_groupname] sz data]
  obtain h where h: "add example_world ''a.tar'' ''d''
      = Inr (True, write_bytes ?w1 ''a.tar'' (h @ [] @ entry_padding 40))"
    "length h = 512" "get_field h F_size = format_o 11 (int (if TAR_TYPE_DIR \<noteq> TAR_TYPE_DIR then st_size dir_stat0 else 0))"
    by blast
  have "file_bytes (write_bytes ?w1 ''a.tar'' (h @ [] @ entry_padding 40)) ''a.tar''
          = h @ replicate 472 NUL"
    by (simp add: file_bytes_def write_bytes_def pad)
  with h show ?thesis
    by (intro exI [of _ h] exI [of _ "write_bytes ?w1 ''a.tar'' (h @ [] @ entry_padding 40)"]) simp
qed

lemma file_bytes_write:
  "fs w q \<noteq> None \<Longrightarrow> file_bytes w q = d \<Longrightarrow> (case fs w q of Some (Symlink t) \<Rightarrow> False | _ \<Rightarrow> True) \<Longrightarrow>
   file_bytes (write_bytes w q data) q = d @ data"
  by (auto simp: file_bytes_def write_bytes_def split: option.splits node.splits)


lemma read_file_in_chunks_all:
  assumes "0 < c" "0 \<le> n" "nat n \<le> length f"
  shows "concat (fst (read_file_in_chunks f n c)) = take (nat n) f"
    and "snd (snd (read_file_in_chunks f n c)) = drop (nat n) f"
  using read_chunks_trace [of c 0 n f] assms by (simp_all add: read_file_in_chunks_def)

subsection \<open>Claims about the writer\<close>

text \<open>
  C6. Building the header of an entry raises \<^verbatim>\<open>ValueError\<close> (the structure
  refuses a value longer than its field) whenever the octal text of the user
  id, the group id, the size or the modification time is longer than its
  field; \<^verbatim>\<open>add\<close> then raises it too. The texts of the mode and of the
  checksum always fit.
\<close>

theorem header_overflow_raises:
  assumes "width F_uid < length (format_o 7 (int (st_uid file_stat)))
         \<or> width F_gid < length (format_o 7 (int (st_gid file_stat)))
         \<or> width F_size
             < length (format_o 11 (int (if typeflag \<noteq> TAR_TYPE_DIR then st_size file_stat else 0)))
         \<or> width F_mtime < length (format_o 0 (st_mtime file_stat))"
  shows "tar_header_of w filename file_stat typeflag linkname = Inl ValueError
       \<and> (os_stat w filename = Inr file_stat
            \<and> file_type w filename file_stat = Inr (typeflag, linkname)
            \<and> open_write w (\<not> os_path_exists w archive) archive = Inr (w1, out)
          \<longrightarrow> add w archive filename = Inl ValueError)"
proof -
  have bad: "\<not> fits (F_uid, format_o 7 (int (st_uid file_stat)))
         \<or> \<not> fits (F_gid, format_o 7 (int (st_gid file_stat)))
         \<or> \<not> fits (F_size, format_o 11 (int (if typeflag \<noteq> TAR_TYPE_DIR then st_size file_stat else 0)))
         \<or> \<not> fits (F_mtime, format_o 0 (st_mtime file_stat))"
    using assms by (simp add: fits_format_o not_le)
  have "tar_header_of w filename file_stat typeflag linkname = Inl ValueError"
    using header_assignments_too_long [OF bad] by (simp add: tar_header_of_def)
  moreover have "add w archive filename = Inl ValueError"
    if "os_stat w filename = Inr file_stat" "file_type w filename file_stat = Inr (typeflag, linkname)"
      "open_write w (\<not> os_path_exists w archive) archive = Inr (w1, out)"
    using add_too_long [OF that bad] .
  ultimately show ?thesis
    by blast
qed

text \<open>The file \<^verbatim>\<open>big\<close> of the example belongs to user \<open>8 ^ 8\<close>, nine octal digits.\<close>

theorem header_overflow_raises_witness:
  "width F_uid < length (format_o 7 (int 16777216))
   \<and> tar_header_of example_world ''big'' (file_stat0\<lparr>st_uid := 16777216\<rparr>) TAR_TYPE_REGULAR_FILE []
       = Inl ValueError
   \<and> add example_world ''a.tar'' ''big'' = Inl ValueError"
proof -
  have "8 < length (oct_digits 16777216)"
    by (rule length_oct_digits_gt) simp
  moreover have "length (format_o 7 (int 16777216)) = max 7 (length (oct_digits 16777216))"
    by (rule length_format_o)
  ultimately have uid: "width F_uid < length (format_o 7 (int 16777216))"
    by (simp only: width.simps)
  then have long: "width F_uid < length (format_o 7 (int (st_uid (file_stat0\<lparr>st_uid := 16777216\<rparr>))))"
    by simp
  have opened: "open_write example_world (\<not> os_path_exists example_world ''a.tar'') ''a.tar''
     = Inr (example_world\<lparr>fs := (fs example_world)(''a.tar'' \<mapsto>
              Node ((created example_world)\<lparr>st_mode := 33188, st_size := 0\<rparr>) [])\<rparr>, ''a.tar'')"
    by (rule example_open_archive)
  from long have "width F_uid < length (format_o 7 (int (st_uid (file_stat0\<lparr>st_uid := 16777216\<rparr>))))
         \<or> width F_gid < length (format_o 7 (int (st_gid (file_stat0\<lparr>st_uid := 16777216\<rparr>))))
         \<or> width F_size
             < length (format_o 11 (int (if TAR_TYPE_REGULAR_FILE \<noteq> TAR_TYPE_DIR
                  then st_size (file_stat0\<lparr>st_uid := 16777216\<rparr>) else 0)))
         \<or> width F_mtime < length (format_o 0 (st_mtime (file_stat0\<lparr>st_uid := 16777216\<rparr>)))"
    by blast
  from header_overflow_raises [OF this, of example_world "''big''" "[]" "''a.tar''"]
  show ?thesis
    using uid example_stat(4) example_types(2) opened by simp
qed

text \<open>What \<^verbatim>\<open>add\<close> does in the example environment.\<close>

text \<open>
  C4. The directory \<^verbatim>\<open>d\<close> of the example has size 40. \<^verbatim>\<open>add\<close> writes its
  header with size field 0, and then 472 zero bytes: the padding is computed
  from the size of the directory, not from the size in the header.
\<close>

theorem add_directory_writes_padding:
  "os_stat example_world ''d'' = Inr dir_stat0 \<and> S_ISDIR (st_mode dir_stat0)
   \<and> st_size dir_stat0 = 40
   \<and> (case add example_world ''a.tar'' ''d'' of
         Inl e \<Rightarrow> False
       | Inr r \<Rightarrow> fst r
           \<and> int_oct (get_field (file_bytes (snd r) ''a.tar'') F_size) = Inr 0
           \<and> length (file_bytes (snd r) ''a.tar'') = 512 + 472
           \<and> drop 512 (file_bytes (snd r) ''a.tar'') = replicate 472 NUL)"
proof -
  from example_add_directory obtain h w' where a:
    "add example_world ''a.tar'' ''d'' = Inr (True, w')"
    "file_bytes w' ''a.tar'' = h @ replicate 472 NUL"
    "length h = 512" "get_field h F_size = format_o 11 (int 0)"
    by blast
  have "int_oct (get_field (h @ replicate 472 NUL) F_size) = Inr 0"
    using a(3,4) int_oct_format_o [of 11 0] by (simp only: get_field_append) simp
  then show ?thesis
    using a example_stat(3) by (simp add: dir_stat0_def S_ISDIR_def S_IFMT_def S_IFDIR_def)
qed

text \<open>
  C2. The entry that \<^verbatim>\<open>add\<close> writes for the directory \<^verbatim>\<open>d\<close> of the example
  has no data (length 0), and yet 472 bytes follow its header, where the
  claim asks for \<open>ceil(0 / 512) * 512 = 0\<close>.
\<close>

theorem add_directory_breaks_padding:
  "entry_data example_world ''d'' TAR_TYPE_DIR (st_size dir_stat0) = Inr []
   \<and> int (length ([] :: bytes)) + padding_size (int (length ([] :: bytes))) = 0
   \<and> (case add example_world ''a.tar'' ''d'' of
         Inl e \<Rightarrow> False
       | Inr r \<Rightarrow> length (file_bytes (snd r) ''a.tar'') - 512 = 472)"
proof -
  from example_add_directory obtain h w' where a:
    "add example_world ''a.tar'' ''d'' = Inr (True, w')"
    "file_bytes w' ''a.tar'' = h @ replicate 472 NUL"
    "length h = 512"
    by blast
  have "entry_data example_world ''d'' TAR_TYPE_DIR (st_size dir_stat0) = Inr []"
    by (simp add: entry_data_def tar_types)
  then show ?thesis
    using a by (simp add: padding_size_def)
qed


lemma example_add_link:
  "\<exists>h w'. add example_world ''a.tar'' ''l'' = Inr (True, w')
         \<and> file_bytes w' ''a.tar'' = h @ ''abc'' @ replicate 509 NUL
         \<and> length h = 512 \<and> get_field h F_typeflag = TAR_TYPE_REGULAR_FILE
         \<and> get_field h F_linkname = []"
proof -
  let ?w1 = "example_world\<lparr>fs := (fs example_world)(''a.tar'' \<mapsto>
              Node ((created example_world)\<lparr>st_mode := 33188, st_size := 0\<rparr>) [])\<rparr>"
  have opened: "open_write example_world (\<not> os_path_exists example_world ''a.tar'') ''a.tar''
                 = Inr (?w1, ''a.tar'')"
    by (rule example_open_archive)
  have sz: "os_path_getsize ?w1 ''l'' = Inr 3"
    by (simp add: os_path_getsize_def os_stat_def resolve_def follow_numeral example_world_def
        file_stat0_def)
  have "open_rb ?w1 ''l'' = Inr ''abc''"
    by (simp add: open_rb_def resolve_def follow_numeral example_world_def file_stat0_def
        S_ISDIR_def S_IFMT_def S_IFDIR_def)
  moreover have "concat (fst (read_file_in_chunks ''abc'' (int 3) 8192)) = take (nat (int 3)) ''abc''"
    by (rule read_file_in_chunks_all) simp_all
  ultimately have data: "entry_data ?w1 ''l'' TAR_TYPE_REGULAR_FILE 3 = Inr ''abc''"
    by (simp add: entry_data_def)
  have pad: "entry_padding 3 = replicate 509 NUL"
    by (simp add: entry_padding_def padding_size_def)
  from add_ok [OF example_stat(2) example_types(1) opened example_fits(1) [OF example_groupname] sz data]
  obtain h where h: "add example_world ''a.tar'' ''l''
      = Inr (True, write_bytes ?w1 ''a.tar'' (h @ ''abc'' @ entry_padding 3))"
    "length h = 512" "get_field h F_typeflag = TAR_TYPE_REGULAR_FILE"
    "get_field h F_linkname = c_string (take 99 [])"
    by blast
  have "file_bytes (write_bytes ?w1 ''a.tar'' (h @ ''abc'' @ entry_padding 3)) ''a.tar''
          = h @ ''abc'' @ replicate 509 NUL"
    by (simp add: file_bytes_def write_bytes_def pad)
  with h show ?thesis
    by (intro exI [of _ h] exI [of _ "write_bytes ?w1 ''a.tar'' (h @ ''abc'' @ entry_padding 3)"])
      (simp add: c_string_def)
qed

text \<open>
  C5. \<^verbatim>\<open>l\<close> is a symbolic link to the regular file \<^verbatim>\<open>f.txt\<close>. \<^verbatim>\<open>os.stat\<close>
  follows the link, so \<^verbatim>\<open>add\<close> sees a regular file: the type flag it
  writes is \<^verbatim>\<open>'0'\<close> and the link name is empty, where the specification asks for a
  symbolic (or hard) link entry that names the target.
\<close>

theorem symlink_is_added_as_its_target:
  "fs example_world ''l'' = Some (Symlink ''f.txt'')
   \<and> os_stat example_world ''l'' = Inr file_stat0
   \<and> file_type example_world ''l'' file_stat0 = Inr (TAR_TYPE_REGULAR_FILE, [])
   \<and> is_hard_link example_world ''l'' = Inr False
   \<and> (case add example_world ''a.tar'' ''l'' of
         Inl e \<Rightarrow> False
       | Inr r \<Rightarrow> get_field (file_bytes (snd r) ''a.tar'') F_typeflag = TAR_TYPE_REGULAR_FILE
           \<and> get_field (file_bytes (snd r) ''a.tar'') F_linkname = [])"
proof -
  from example_add_link obtain h w' where a:
    "add example_world ''a.tar'' ''l'' = Inr (True, w')"
    "file_bytes w' ''a.tar'' = h @ ''abc'' @ replicate 509 NUL"
    "length h = 512" "get_field h F_typeflag = TAR_TYPE_REGULAR_FILE"
    "get_field h F_linkname = []"
    by blast
  have "fs example_world ''l'' = Some (Symlink ''f.txt'')"
    by (simp add: example_world_def)
  moreover have "is_hard_link example_world ''l'' = Inr False"
    by (simp add: is_hard_link_def example_stat(2) file_stat0_def S_ISLNK_def S_IFMT_def S_IFLNK_def)
  ultimately show ?thesis
    using a example_stat(2) example_types(1) by (simp add: get_field_append)
qed

subsection \<open>The result of create\<close>

lemma add_files_true: "add_files w archive dirname True files = Inr (r, w') \<Longrightarrow> r"
proof (induction files arbitrary: w)
  case Nil
  then show ?case by simp
next
  case (Cons filename files)
  then show ?case
    by (auto split: sum.splits)
qed

lemma add_walk_true: "add_walk w archive True entries = Inr (r, w') \<Longrightarrow> r"
proof (induction entries arbitrary: w)
  case Nil
  then show ?case by simp
next
  case (Cons entry entries)
  obtain dirname dirs files where e: "entry = (dirname, dirs, files)"
    by (cases entry)
  from Cons.prems obtain x w1 y w2 where
    "add w archive dirname = Inr (x, w1)"
    "add_files w1 archive dirname (True \<or> x) files = Inr (y, w2)"
    "add_walk w2 archive y entries = Inr (r, w')"
    unfolding e by (auto split: sum.splits)
  then show ?case
    using add_files_true [of w1 archive dirname files y w2] Cons.IH by simp
qed

text \<open>
  C10, as the code has it. When \<^verbatim>\<open>rootPath\<close> exists, \<^verbatim>\<open>create\<close> never
  returns failure: it returns success, whatever its \<^verbatim>\<open>add\<close> calls return,
  unless one of them (or the opening of the archive) raises, in which case it
  raises too.
\<close>

theorem create_never_returns_failure:
  assumes "os_path_exists w file_or_dir"
  shows "create w archive file_or_dir \<noteq> Inr (False, w')"
proof
  assume c: "create w archive file_or_dir = Inr (False, w')"
  then obtain w0 out where o: "open_write w True archive = Inr (w0, out)"
    using assms by (auto simp: create_def split: sum.splits)
  show False
  proof (cases "os_path_isfile w0 file_or_dir")
    case True
    then show ?thesis
      using c o assms by (auto simp: create_def split: sum.splits)
  next
    case False
    then have "add_walk w0 archive True (walk w0 file_or_dir) = Inr (False, w')"
      using c o assms by (simp add: create_def)
    then show ?thesis
      using add_walk_true by blast
  qed
qed


text \<open>The example archive, once \<^verbatim>\<open>create\<close> has emptied it.\<close>

lemma example_truncated:
  "open_write (example_world\<lparr>fs := (fs example_world)(''a.tar'' \<mapsto>
              Node ((created example_world)\<lparr>st_mode := 33188, st_size := 0\<rparr>) [])\<rparr>)
     (\<not> os_path_exists (example_world\<lparr>fs := (fs example_world)(''a.tar'' \<mapsto>
              Node ((created example_world)\<lparr>st_mode := 33188, st_size := 0\<rparr>) [])\<rparr>) ''a.tar'')
     ''a.tar''
   = Inr (example_world\<lparr>fs := (fs example_world)(''a.tar'' \<mapsto>
              Node ((created example_world)\<lparr>st_mode := 33188, st_size := 0\<rparr>) [])\<rparr>, ''a.tar'')"
  by (simp add: open_write_def os_path_exists_def os_stat_def resolve_def follow_numeral
      example_world_def S_ISDIR_def S_IFMT_def S_IFDIR_def)

text \<open>
  The file \<^verbatim>\<open>big\<close> exists, and \<^verbatim>\<open>create\<close> on it does not return success: the
  user id does not fit the header and the exception of \<^verbatim>\<open>add\<close> leaves
  \<^verbatim>\<open>create\<close>.
\<close>

theorem create_raises_counterexample:
  "os_path_exists example_world ''big'' \<and> create example_world ''a.tar'' ''big'' = Inl ValueError"
proof -
  let ?w1 = "example_world\<lparr>fs := (fs example_world)(''a.tar'' \<mapsto>
              Node ((created example_world)\<lparr>st_mode := 33188, st_size := 0\<rparr>) [])\<rparr>"
  let ?st = "file_stat0\<lparr>st_uid := 16777216\<rparr>"
  have ex: "os_path_exists example_world ''big''"
    by (simp add: os_path_exists_def example_stat(4))
  have st: "os_stat ?w1 ''big'' = Inr ?st"
    by (simp add: os_stat_def resolve_def follow_numeral example_world_def)
  have isfile: "os_path_isfile ?w1 ''big''"
    by (simp add: os_path_isfile_def st file_stat0_def S_ISREG_def S_IFMT_def S_IFREG_def)
  have "8 < length (oct_digits 16777216)"
    by (rule length_oct_digits_gt) simp
  moreover have "length (format_o 7 (int 16777216)) = max 7 (length (oct_digits 16777216))"
    by (rule length_format_o)
  ultimately have "\<not> fits (F_uid, format_o 7 (int (st_uid ?st)))"
    by (simp add: fits_format_o)
  then have "add ?w1 ''a.tar'' ''big'' = Inl ValueError"
    by (intro add_too_long [OF st example_types(2) example_truncated]) simp
  then have "create example_world ''a.tar'' ''big'' = Inl ValueError"
    using ex isfile by (simp add: create_def example_open_archive)
  with ex show ?thesis
    by simp
qed

lemma example_create_directory:
  "\<exists>r w'. create example_world ''a.tar'' ''d'' = Inr (r, w')"
proof -
  let ?w1 = "example_world\<lparr>fs := (fs example_world)(''a.tar'' \<mapsto>
              Node ((created example_world)\<lparr>st_mode := 33188, st_size := 0\<rparr>) [])\<rparr>"
  have ex: "os_path_exists example_world ''d''"
    by (simp add: os_path_exists_def example_stat(3))
  have st: "os_stat ?w1 ''d'' = Inr dir_stat0"
    by (simp add: os_stat_def resolve_def follow_numeral example_world_def)
  have notfile: "\<not> os_path_isfile ?w1 ''d''"
    by (simp add: os_path_isfile_def st dir_stat0_def S_ISREG_def S_IFMT_def S_IFREG_def)
  have sz: "os_path_getsize ?w1 ''d'' = Inr 40"
    by (simp add: os_path_getsize_def st dir_stat0_def)
  have data: "entry_data ?w1 ''d'' TAR_TYPE_DIR 40 = Inr []"
    by (simp add: entry_data_def tar_types)
  have grp: "groupname ?w1 = ''users''"
    by (simp add: example_world_def)
  from add_ok [OF st example_types(3) example_truncated example_fits(2) [OF grp] sz data]
  obtain h where h: "add ?w1 ''a.tar'' ''d''
      = Inr (True, write_bytes ?w1 ''a.tar'' (h @ [] @ entry_padding 40))"
    by blast
  let ?w2 = "write_bytes ?w1 ''a.tar'' (h @ [] @ entry_padding 40)"
  have "\<not> os_path_exists ?w2 ''d/broken''"
    by (simp add: os_path_exists_def os_stat_def resolve_def follow_numeral write_bytes_def
        example_world_def)
  then have "add ?w2 ''a.tar'' ''d/broken'' = Inr (False, ?w2)"
    by (rule add_missing)
  moreover have "walk ?w1 ''d'' = [(''d'', [], [''broken''])]"
    by (simp add: example_world_def)
  moreover have "os_path_join ''d'' ''broken'' = ''d/broken''"
    by (simp add: os_path_join_def)
  ultimately have "create example_world ''a.tar'' ''d'' = Inr (True, ?w2)"
    using ex notfile h by (simp add: create_def example_open_archive)
  then show ?thesis
    by blast
qed

text \<open>
  \<^verbatim>\<open>create\<close> on the directory \<^verbatim>\<open>d\<close> returns success although the
  \<^verbatim>\<open>add\<close> of its dangling link returns failure.
\<close>

theorem create_never_returns_failure_witness:
  "os_path_exists example_world ''d''
   \<and> \<not> os_path_exists example_world ''d/broken''
   \<and> (\<exists>w'. create example_world ''a.tar'' ''d'' = Inr (True, w'))"
proof -
  have ex: "os_path_exists example_world ''d''"
    by (simp add: os_path_exists_def example_stat(3))
  have nex: "\<not> os_path_exists example_world ''d/broken''"
    by (simp add: os_path_exists_def example_stat(5))
  from example_create_directory obtain r w' where
    c: "create example_world ''a.tar'' ''d'' = Inr (r, w')"
    by blast
  have "r"
    using create_never_returns_failure [OF ex, of "''a.tar''" w'] c by (cases r) simp_all
  then have "create example_world ''a.tar'' ''d'' = Inr (True, w')"
    using c by simp
  with ex nex show ?thesis
    by blast
qed

subsection \<open>Claims about the readers\<close>

lemma readinto_header:
  "fst (readinto f) = take 512 f @ replicate (512 - length f) NUL"
  "snd (readinto f) = drop 512 f"
  by (simp_all add: readinto_def file_read_def overlay_def TarHeader_def sizeof_TarHeader
      min_def)

lemma length_readinto: "length (fst (readinto f)) = 512"
  by (simp add: readinto_header)

lemma name_empty_iff:
  "(get_field (fst (readinto f)) F_name = []) = (f = [] \<or> hd f = NUL)"
proof (cases f)
  case Nil
  then show ?thesis
    by (simp add: readinto_empty_name)
next
  case (Cons c cs)
  have "field_bytes (fst (readinto (c # cs))) F_name
          = c # take 99 (take 511 cs @ replicate (511 - length cs) NUL)"
    by (simp add: readinto_header field_bytes_def offsets)
  then show ?thesis
    using Cons by (simp add: get_field_def c_string_def)
qed

lemma list_entries_Done: "list_entry f = Done \<Longrightarrow> list_entries f = Inr []"
  by (subst list_entries.simps) simp

lemma extract_entries_Done:
  "extract_entry w dest_path f = Done \<Longrightarrow> extract_entries w dest_path f = Inr w"
  by (subst extract_entries.simps) simp

lemma list_entry_Done_iff: "(list_entry f = Done) = (f = [] \<or> hd f = NUL)"
  using name_empty_iff [of f]
  by (auto simp: list_entry_def Let_def split: sum.splits)

lemma extract_entry_Done_iff: "(extract_entry w dest_path f = Done) = (f = [] \<or> hd f = NUL)"
  using name_empty_iff [of f]
  by (auto simp: extract_entry_def Let_def split: sum.splits prod.splits)

text \<open>
  C8, as the code has it. A round of \<^verbatim>\<open>list_content\<close> or of \<^verbatim>\<open>extract\<close>
  ends the scan exactly when the archive is at its end or the first byte of
  the name field is zero: the name is read as a C string, which is then
  empty. The scan then returns at once. Every other header is handled as an
  entry (or its numbers fail to parse and the scan raises).
\<close>

theorem scan_stops_at_empty_name:
  "(list_entry f = Done) = (f = [] \<or> hd f = NUL)
   \<and> (extract_entry w dest_path f = Done) = (f = [] \<or> hd f = NUL)
   \<and> (f = [] \<or> hd f = NUL
        \<longrightarrow> list_entries f = Inr [] \<and> extract_entries w dest_path f = Inr w)"
  using list_entry_Done_iff [of f] extract_entry_Done_iff [of w dest_path f]
    list_entries_Done [of f] extract_entries_Done [of w dest_path f]
  by blast

text \<open>At the end of the archive.\<close>

theorem scan_stops_at_empty_name_witness:
  "list_entry [] = Done \<and> extract_entry example_world ''out'' [] = Done
   \<and> list_entries [] = Inr [] \<and> extract_entries example_world ''out'' [] = Inr example_world"
  using scan_stops_at_empty_name [of "[]" example_world "''out''"] by simp

text \<open>
  A header whose name field holds a zero byte and then \<^verbatim>\<open>name\<close>: the field is
  not all zero and the archive is not at its end, yet both scans stop.
\<close>

theorem scan_stops_counterexample:
  "length hidden_entry = 512
   \<and> field_bytes (fst (readinto hidden_entry)) F_name = NUL # ''name'' @ replicate 95 NUL
   \<and> field_bytes (fst (readinto hidden_entry)) F_name \<noteq> replicate 100 NUL
   \<and> list_entries hidden_entry = Inr []
   \<and> extract_entries example_world ''out'' hidden_entry = Inr example_world"
proof -
  have "hidden_entry \<noteq> []" "hd hidden_entry = NUL"
    by (simp_all add: hidden_entry_def)
  then have "list_entries hidden_entry = Inr []"
    "extract_entries example_world ''out'' hidden_entry = Inr example_world"
    using list_entry_Done_iff [of hidden_entry]
      extract_entry_Done_iff [of example_world "''out''" hidden_entry]
    by (simp_all add: list_entries_Done extract_entries_Done)
  moreover have "field_bytes (fst (readinto hidden_entry)) F_name = NUL # ''name'' @ replicate 95 NUL"
    by (simp add: readinto_header field_bytes_def offsets hidden_entry_def)
  moreover have "NUL # ''name'' @ replicate 95 NUL \<noteq> replicate 100 NUL"
  proof
    assume "NUL # ''name'' @ replicate 95 NUL = replicate 100 NUL"
    then have "(NUL # ''name'' @ replicate 95 NUL) ! 1 = replicate 100 NUL ! 1"
      by (rule arg_cong)
    then show False
      by simp
  qed
  ultimately show ?thesis
    by (simp add: hidden_entry_def)
qed


text \<open>A round of \<^verbatim>\<open>extract\<close> on the entry of a regular file.\<close>

lemma extract_entry_regular:
  assumes "get_field (fst (readinto f)) F_name = name" "name \<noteq> []"
    "int_oct (get_field (fst (readinto f)) F_size) = Inr (int n)"
    "get_field (fst (readinto f)) F_typeflag = TAR_TYPE_REGULAR_FILE"
    "open_write w True (os_path_join dest_path name) = Inr (w1, q)"
    "n \<le> length (drop 512 f)"
  shows "extract_entry w dest_path f
           = Entry (os_path_join dest_path name, write_bytes w1 q (take n (drop 512 f)))
               (snd (file_read (drop n (drop 512 f)) (padding_size (int n))))"
proof -
  have "concat (fst (read_file_in_chunks (drop 512 f) (int n) 8192)) = take n (drop 512 f)"
    "snd (snd (read_file_in_chunks (drop 512 f) (int n) 8192)) = drop n (drop 512 f)"
    using read_file_in_chunks_all [of 8192 "int n" "drop 512 f"] assms(6) by simp_all
  then show ?thesis
    using assms(1-5)
    by (simp add: extract_entry_def Let_def readinto_header(2) case_prod_unfold)
qed

lemma os_path_join_absolute: "take 1 name = ''/'' \<Longrightarrow> os_path_join dest_path name = name"
  by (simp add: os_path_join_def)

text \<open>
  C9. When the name in a header starts with \<^verbatim>\<open>/\<close>, the output path of
  \<^verbatim>\<open>extract\<close> is the name itself: the round does the same whatever the
  destination directory is, and what it writes, it writes under the name.
\<close>

theorem extract_absolute_name:
  assumes "get_field (fst (readinto in_file)) F_name = name" and "take 1 name = ''/''"
  shows "os_path_join dest_path name = name
       \<and> extract_entry w dest_path in_file = extract_entry w dest_path' in_file
       \<and> (case extract_entry w dest_path in_file of
             Entry r rest \<Rightarrow> fst r = name
           | _ \<Rightarrow> True)"
proof -
  have j: "os_path_join d name = name" for d
    using assms(2) by (rule os_path_join_absolute)
  have "extract_entry w dest_path in_file = extract_entry w dest_path' in_file"
    unfolding extract_entry_def Let_def assms(1) j ..
  moreover have "case extract_entry w dest_path in_file of Entry r rest \<Rightarrow> fst r = name | _ \<Rightarrow> True"
    unfolding extract_entry_def Let_def assms(1) j
    by (simp split: sum.splits prod.splits)
  ultimately show ?thesis
    using j by simp
qed

text \<open>
  An archive of one entry, the regular file \<^verbatim>\<open>/f\<close> of three bytes, extracted
  to \<^verbatim>\<open>out\<close> in the example environment: the file appears as \<^verbatim>\<open>/f\<close>, and
  nothing appears as \<^verbatim>\<open>out/f\<close>.
\<close>

lemma absolute_archive_fields:
  "get_field (fst (readinto absolute_archive)) F_name = ''/f''"
  "get_field (fst (readinto absolute_archive)) F_size = ''3''"
  "get_field (fst (readinto absolute_archive)) F_typeflag = ''0''"
  "drop 512 absolute_archive = ''abc'' @ replicate 509 NUL"
  by (simp_all add: readinto_header get_field_def field_bytes_def offsets c_string_def
      absolute_archive_def)

theorem extract_absolute_name_witness:
  "get_field (fst (readinto absolute_archive)) F_name = ''/f'' \<and> take 1 ''/f'' = ''/''
   \<and> os_path_join ''out'' ''/f'' = ''/f''
   \<and> (case extract_entry example_world ''out'' absolute_archive of
         Entry r rest \<Rightarrow> fst r = ''/f'' \<and> file_bytes (snd r) ''/f'' = ''abc''
           \<and> fs (snd r) ''out/f'' = None
       | _ \<Rightarrow> False)"
proof -
  let ?w1 = "example_world\<lparr>fs := (fs example_world)(''/f'' \<mapsto>
              Node ((created example_world)\<lparr>st_mode := 33188, st_size := 0\<rparr>) [])\<rparr>"
  have opened: "open_write example_world True (os_path_join ''out'' ''/f'') = Inr (?w1, ''/f'')"
    by (simp add: os_path_join_def open_write_def resolve_def follow_numeral example_world_def
        parent_ok_def os_path_dirname_def os_path_isdir_def os_stat_def dir_stat0_def
        S_ISDIR_def S_IFMT_def S_IFDIR_def S_IFREG_def)
  have size: "int_oct (get_field (fst (readinto absolute_archive)) F_size) = Inr (int 3)"
    by (simp add: absolute_archive_fields int_oct_def strip_def is_space_def has_oct_prefix_def
        is_oct_digit_def Let_def)
  have "extract_entry example_world ''out'' absolute_archive
          = Entry (os_path_join ''out'' ''/f'',
                   write_bytes ?w1 ''/f'' (take 3 (drop 512 absolute_archive)))
              (snd (file_read (drop 3 (drop 512 absolute_archive)) (padding_size (int 3))))"
    by (rule extract_entry_regular [OF absolute_archive_fields(1) _ size _ opened])
      (simp_all add: absolute_archive_fields TAR_TYPE_REGULAR_FILE_def)
  moreover have "file_bytes (write_bytes ?w1 ''/f'' (take 3 (drop 512 absolute_archive))) ''/f'' = ''abc''"
    "fs (write_bytes ?w1 ''/f'' (take 3 (drop 512 absolute_archive))) ''out/f'' = None"
    by (simp_all add: file_bytes_def write_bytes_def absolute_archive_fields example_world_def)
  ultimately show ?thesis
    using extract_absolute_name [OF absolute_archive_fields(1), of "''out''" example_world "''out''"]
    by (simp add: absolute_archive_fields(1))
qed

subsection \<open>Modes of created objects\<close>








subsection \<open>Names that are not links\<close>









subsection \<open>Opening a file for writing\<close>






subsection \<open>Archiving one regular file\<close>








subsection \<open>Extracting an archive of one regular file\<close>









subsection \<open>The round trip\<close>







end
